theory Spec2Isabelle
  imports Complex_Main "HOL-Library.Stream"
begin

section \<open>Python values used by \<^verbatim>\<open>kirana_data_generator.py\<close>\<close>

text \<open>
  The exceptions the generator functions can end with: \<^verbatim>\<open>IndexError\<close> from
  \<^verbatim>\<open>random.choice\<close> on an empty sequence, from \<^verbatim>\<open>.split()[0]\<close> on a blank string and
  from \<^verbatim>\<open>.iloc[0]\<close> on an empty selection; \<^verbatim>\<open>KeyError\<close> from a dictionary lookup;
  \<^verbatim>\<open>OverflowError\<close> from adding a \<^verbatim>\<open>timedelta\<close> to the last representable day.
\<close>

datatype error = IndexError | KeyError | OverflowError

subsection \<open>\<^verbatim>\<open>datetime\<close>\<close>

text \<open>
  A naive \<^verbatim>\<open>datetime\<close> is held as its proleptic Gregorian ordinal
  (\<^verbatim>\<open>toordinal()\<close>, 1 for 1 January of year 1) and its time of day in microseconds.
  Year, month and day are read back from the ordinal with the standard library's
  \<^verbatim>\<open>_ord2ymd\<close>; \<^verbatim>\<open>datetime(y, m, d)\<close> is built with \<^verbatim>\<open>_ymd2ord\<close>. Comparison of two
  datetimes is the lexicographic one on (ordinal, time of day).
\<close>

record datetime =
  ordinal :: int
  tod :: int

definition MAXORDINAL :: int where
  "MAXORDINAL = 3652059"

definition valid_datetime :: "datetime \<Rightarrow> bool" where
  "valid_datetime d =
     (1 \<le> ordinal d \<and> ordinal d \<le> MAXORDINAL \<and> 0 \<le> tod d \<and> tod d < 86400000000)"

definition DAYS_IN_MONTH :: "int list" where
  "DAYS_IN_MONTH = [-1, 31, 28, 31, 30, 31, 30, 31, 31, 30, 31, 30, 31]"

definition DAYS_BEFORE_MONTH :: "int list" where
  "DAYS_BEFORE_MONTH = [-1, 0, 31, 59, 90, 120, 151, 181, 212, 243, 273, 304, 334]"

definition is_leap :: "int \<Rightarrow> bool" where
  "is_leap year = (year mod 4 = 0 \<and> (year mod 100 \<noteq> 0 \<or> year mod 400 = 0))"

definition days_before_year :: "int \<Rightarrow> int" where
  "days_before_year year =
     (let y = year - 1 in y * 365 + y div 4 - y div 100 + y div 400)"

definition days_before_month :: "int \<Rightarrow> int \<Rightarrow> int" where
  "days_before_month year month =
     DAYS_BEFORE_MONTH ! nat month + (if month > 2 \<and> is_leap year then 1 else 0)"

definition ymd2ord :: "int \<Rightarrow> int \<Rightarrow> int \<Rightarrow> int" where
  "ymd2ord year month day = days_before_year year + days_before_month year month + day"

definition DI400Y :: int where "DI400Y = 146097"
definition DI100Y :: int where "DI100Y = 36524"
definition DI4Y :: int where "DI4Y = 1461"

definition ord2ymd :: "int \<Rightarrow> int \<times> int \<times> int" where
  "ord2ymd n0 =
     (let n = n0 - 1;
          n400 = n div DI400Y; n = n mod DI400Y;
          year = n400 * 400 + 1;
          n100 = n div DI100Y; n = n mod DI100Y;
          n4 = n div DI4Y; n = n mod DI4Y;
          n1 = n div 365; n = n mod 365;
          year = year + n100 * 100 + n4 * 4 + n1
      in if n1 = 4 \<or> n100 = 4 then (year - 1, 12, 31)
         else
           let leapyear = (n1 = 3 \<and> (n4 \<noteq> 24 \<or> n100 = 3));
               month = (n + 50) div 32;
               preceding = DAYS_BEFORE_MONTH ! nat month + (if month > 2 \<and> leapyear then 1 else 0)
           in if preceding > n
              then let month = month - 1;
                       preceding = preceding -
                         (DAYS_IN_MONTH ! nat month + (if month = 2 \<and> leapyear then 1 else 0))
                   in (year, month, n - preceding + 1)
              else (year, month, n - preceding + 1))"

definition mk_datetime :: "int \<Rightarrow> int \<Rightarrow> int \<Rightarrow> datetime" where
  "mk_datetime year month day = \<lparr>ordinal = ymd2ord year month day, tod = 0\<rparr>"

definition year_of :: "datetime \<Rightarrow> int" where
  "year_of d = fst (ord2ymd (ordinal d))"

definition month_of :: "datetime \<Rightarrow> int" where
  "month_of d = fst (snd (ord2ymd (ordinal d)))"

definition day_of :: "datetime \<Rightarrow> int" where
  "day_of d = snd (snd (ord2ymd (ordinal d)))"

definition weekday :: "datetime \<Rightarrow> int" where
  "weekday d = (ordinal d + 6) mod 7"

definition dt_le :: "datetime \<Rightarrow> datetime \<Rightarrow> bool" where
  "dt_le a b = (ordinal a < ordinal b \<or> (ordinal a = ordinal b \<and> tod a \<le> tod b))"

definition dt_lt :: "datetime \<Rightarrow> datetime \<Rightarrow> bool" where
  "dt_lt a b = (ordinal a < ordinal b \<or> (ordinal a = ordinal b \<and> tod a < tod b))"

text \<open>
  \<^verbatim>\<open>d + timedelta(days=n)\<close>: the standard library adds on the ordinal and raises
  \<^verbatim>\<open>OverflowError\<close> when the result leaves \<^verbatim>\<open>1 .. _MAXORDINAL\<close>.
\<close>

definition add_days :: "datetime \<Rightarrow> int \<Rightarrow> error + datetime" where
  "add_days d n =
     (if 0 < ordinal d + n \<and> ordinal d + n \<le> MAXORDINAL
      then Inr (d\<lparr>ordinal := ordinal d + n\<rparr>)
      else Inl OverflowError)"

text \<open>
  \<^verbatim>\<open>strftime('%d-%m-%Y')\<close>: day and month zero-padded to two digits; the year as glibc
  prints it, in decimal without padding.
\<close>

definition digit :: "int \<Rightarrow> char" where
  "digit n = ''0123456789'' ! nat (n mod 10)"

function decimal :: "int \<Rightarrow> string" where
  "decimal n = (if n < 10 then [digit n] else decimal (n div 10) @ [digit n])"
  by pat_completeness auto
termination
  by (relation "measure nat") auto

declare decimal.simps [simp del]

definition two_digits :: "int \<Rightarrow> string" where
  "two_digits n = [digit (n div 10), digit n]"

definition strftime_date :: "datetime \<Rightarrow> string" where
  "strftime_date d =
     two_digits (day_of d) @ ''-'' @ two_digits (month_of d) @ ''-'' @ decimal (year_of d)"

section \<open>The calendar filter: \<^verbatim>\<open>generate_dates\<close>\<close>

definition holidays :: "datetime list" where
  "holidays =
     [mk_datetime 2024 1 26,
      mk_datetime 2024 3 25,
      mk_datetime 2024 8 15,
      mk_datetime 2024 10 2,
      mk_datetime 2024 10 12,
      mk_datetime 2024 11 1]"

text \<open>
  The generator yields dates one at a time; its consumers are \<^verbatim>\<open>for\<close> loops that run
  their body on every yielded date. The model returns the list of the yielded dates and
  how the generator ended: \<open>None\<close> when the \<^verbatim>\<open>while\<close> loop left normally, \<open>Some e\<close>
  when \<^verbatim>\<open>current_date += timedelta(days=1)\<close> raised \<open>e\<close> after the dates listed.
\<close>

function generate_dates_loop :: "datetime \<Rightarrow> datetime \<Rightarrow> datetime list \<times> error option" where
  "generate_dates_loop current_date end_date =
     (if dt_le current_date end_date then
        (let yielded =
               (if weekday current_date < 6 \<and> current_date \<notin> set holidays
                then [current_date] else [])
         in case add_days current_date 1 of
              Inl e \<Rightarrow> (yielded, Some e)
            | Inr next_date \<Rightarrow>
                (case generate_dates_loop next_date end_date of
                   (ds, r) \<Rightarrow> (yielded @ ds, r)))
      else ([], None))"
  by pat_completeness auto
termination
  by (relation "measure (\<lambda>(c, e). nat (ordinal e + 1 - ordinal c))")
     (auto simp: dt_le_def add_days_def split: if_splits)

declare generate_dates_loop.simps [simp del]

definition generate_dates :: "datetime \<Rightarrow> datetime \<Rightarrow> datetime list \<times> error option" where
  "generate_dates start_date end_date = generate_dates_loop start_date end_date"

section \<open>Numbers and strings\<close>

text \<open>
  Python's \<^verbatim>\<open>float\<close> values are taken as exact rationals: \<^verbatim>\<open>round(x, 2)\<close> rounds the exact
  value to the nearest hundredth, a tie going to the even neighbour, and \<^verbatim>\<open>int(x)\<close>
  truncates towards zero. The program computes on binary floating-point numbers, whose
  products differ from the exact ones by a rounding error: where the exact value is a tie
  between two hundredths (10.05 * 0.9 = 9.045), the program may write either neighbour
  (9.05) and the model writes the even one (9.04). The properties proved of rounded
  amounts below are bounds and order relations that hold whichever neighbour is written;
  none of them says which one is.
\<close>

definition round_half_even :: "rat \<Rightarrow> int" where
  "round_half_even x =
     (let f = \<lfloor>x\<rfloor>; r = x - of_int f
      in if r < 1 / 2 then f else if r > 1 / 2 then f + 1 else if even f then f else f + 1)"

definition py_round :: "rat \<Rightarrow> nat \<Rightarrow> rat" where
  "py_round x ndigits = of_int (round_half_even (x * 10 ^ ndigits)) / 10 ^ ndigits"

definition py_int :: "rat \<Rightarrow> int" where
  "py_int x = (if 0 \<le> x then \<lfloor>x\<rfloor> else \<lceil>x\<rceil>)"

text \<open>
  \<^verbatim>\<open>s.split()[0]\<close>: the first maximal run of non-whitespace characters of \<^verbatim>\<open>s\<close>;
  \<^verbatim>\<open>IndexError\<close> when there is none. A character is a code point below 256; the
  whitespace ones are those \<^verbatim>\<open>str.isspace\<close> accepts in that range.
\<close>

definition is_space :: "char \<Rightarrow> bool" where
  "is_space c =
     (c \<in> set [CHR '' '', CHR 0x09, CHR 0x0A, CHR 0x0B, CHR 0x0C, CHR 0x0D,
               CHR 0x1C, CHR 0x1D, CHR 0x1E, CHR 0x1F, CHR 0x85, CHR 0xA0])"

definition split_first :: "string \<Rightarrow> error + string" where
  "split_first s =
     (case takeWhile (\<lambda>c. \<not> is_space c) (dropWhile is_space s) of
        [] \<Rightarrow> Inl IndexError
      | c # cs \<Rightarrow> Inr (c # cs))"

text \<open>\<^verbatim>\<open>s.lower()\<close> on ASCII text.\<close>

definition lower_char :: "char \<Rightarrow> char" where
  "lower_char c =
     (case map_of (zip ''ABCDEFGHIJKLMNOPQRSTUVWXYZ'' ''abcdefghijklmnopqrstuvwxyz'') c of
        None \<Rightarrow> c
      | Some l \<Rightarrow> l)"

definition lower :: "string \<Rightarrow> string" where
  "lower s = map lower_char s"

section \<open>The random sources\<close>

text \<open>
  The generator reads two ambient sources: the hidden generator of the \<^verbatim>\<open>random\<close> module
  and the \<^verbatim>\<open>Faker('en_IN')\<close> instance \<^verbatim>\<open>fake\<close>. Both are made explicit as the state the
  functions take and return. The \<^verbatim>\<open>random\<close> module's generator is the stream of its
  successive raw outputs, each library call consuming one; the Faker instance is the
  stream of the company names \<^verbatim>\<open>fake.company()\<close> returns and the stream of the times of
  day (in seconds) \<^verbatim>\<open>fake.time_object()\<close> returns.
\<close>

record world =
  random_state :: "int stream"
  company_names :: "string stream"
  time_objects :: "int stream"

definition next_raw :: "world \<Rightarrow> int \<times> world" where
  "next_raw w = (shd (random_state w), w\<lparr>random_state := stl (random_state w)\<rparr>)"

definition randbelow :: "int \<Rightarrow> world \<Rightarrow> int \<times> world" where
  "randbelow n w = (case next_raw w of (r, w') \<Rightarrow> (r mod n, w'))"

definition random_random :: "world \<Rightarrow> rat \<times> world" where
  "random_random w = (case next_raw w of (r, w') \<Rightarrow> (of_int (r mod 2 ^ 53) / 2 ^ 53, w'))"

definition random_choice :: "'a list \<Rightarrow> world \<Rightarrow> error + ('a \<times> world)" where
  "random_choice seq w =
     (if length seq = 0 then Inl IndexError
      else case randbelow (int (length seq)) w of (i, w') \<Rightarrow> Inr (seq ! nat i, w'))"

definition random_randint :: "int \<Rightarrow> int \<Rightarrow> world \<Rightarrow> int \<times> world" where
  "random_randint a b w = (case randbelow (b + 1 - a) w of (i, w') \<Rightarrow> (a + i, w'))"

definition random_uniform :: "rat \<Rightarrow> rat \<Rightarrow> world \<Rightarrow> rat \<times> world" where
  "random_uniform a b w = (case random_random w of (u, w') \<Rightarrow> (a + (b - a) * u, w'))"

text \<open>
  \<^verbatim>\<open>random.choices(population, weights=weights)[0]\<close>: the cumulative weights are
  bisected (to the right, below the last index) at \<^verbatim>\<open>random() * total\<close>.
\<close>

fun accumulate :: "rat \<Rightarrow> rat list \<Rightarrow> rat list" where
  "accumulate acc [] = []"
| "accumulate acc (x # xs) = (acc + x) # accumulate (acc + x) xs"

definition bisect :: "rat list \<Rightarrow> rat \<Rightarrow> nat" where
  "bisect cum_weights x = length (takeWhile (\<lambda>c. c \<le> x) (butlast cum_weights))"

definition random_choices :: "'a list \<Rightarrow> rat list \<Rightarrow> world \<Rightarrow> 'a \<times> world" where
  "random_choices population weights w =
     (let cum_weights = accumulate 0 weights;
          total = last cum_weights
      in case random_random w of (u, w') \<Rightarrow> (population ! bisect cum_weights (u * total), w'))"

definition fake_company :: "world \<Rightarrow> string \<times> world" where
  "fake_company w = (shd (company_names w), w\<lparr>company_names := stl (company_names w)\<rparr>)"

definition fake_time_object :: "world \<Rightarrow> int \<times> world" where
  "fake_time_object w = (shd (time_objects w) mod 86400, w\<lparr>time_objects := stl (time_objects w)\<rparr>)"

text \<open>\<^verbatim>\<open>strftime('%H:%M')\<close> of a time of day given in seconds.\<close>

definition strftime_time :: "int \<Rightarrow> string" where
  "strftime_time t = two_digits (t div 3600) @ '':'' @ two_digits (t mod 3600 div 60)"

section \<open>The catalog generator: \<^verbatim>\<open>generate_products\<close>\<close>

text \<open>A row of the products frame; \<open>p_sno\<close> is the column \<^verbatim>\<open>S.No\<close>.\<close>

record product =
  p_sno :: int
  p_product_name :: string
  p_category :: string
  p_mrp :: rat
  p_cost_price :: rat
  p_shelf_life_days :: int

definition categories :: "(string \<times> string list) list" where
  "categories =
     [(''Staples'', [''Rice'', ''Wheat Flour'', ''Dal'', ''Salt'', ''Sugar'']),
      (''Snacks'', [''Biscuits'', ''Chips'', ''Chocolates'', ''Namkeen'']),
      (''Beverages'', [''Tea'', ''Coffee'', ''Juice'', ''Soft Drinks'']),
      (''Personal Care'', [''Soap'', ''Shampoo'', ''Toothpaste'', ''Detergent'']),
      (''Groceries'', [''Oil'', ''Spices'', ''Pulses'', ''Masala''])]"

text \<open>The body of the \<^verbatim>\<open>for i in range(num_products)\<close> loop: the product appended.\<close>

definition generate_products_body :: "int \<Rightarrow> world \<Rightarrow> error + (product \<times> world)" where
  "generate_products_body i w0 =
     (case random_choice (map fst categories) w0 of
        Inl e \<Rightarrow> Inl e
      | Inr (category, w1) \<Rightarrow>
          (case map_of categories category of
             None \<Rightarrow> Inl KeyError
           | Some names \<Rightarrow>
               (case random_choice names w1 of
                  Inl e \<Rightarrow> Inl e
                | Inr (base_name, w2) \<Rightarrow>
                    (case fake_company w2 of
                       (company, w3) \<Rightarrow>
                         (case split_first company of
                            Inl e \<Rightarrow> Inl e
                          | Inr brand \<Rightarrow>
                              (let product_name = brand @ '' '' @ base_name;
                                   (mrp, w4) = random_uniform 10 500 w3;
                                   (cost_price, w5) = random_uniform 5 400 w4;
                                   (shelf_life_days, w6) = random_randint 30 720 w5
                               in Inr (\<lparr>p_sno = i + 1,
                                        p_product_name = product_name,
                                        p_category = category,
                                        p_mrp = py_round mrp 2,
                                        p_cost_price = py_round cost_price 2,
                                        p_shelf_life_days = shelf_life_days\<rparr>, w6)))))))"

text \<open>The loop: \<open>k\<close> iterations are left, the loop variable is \<open>i\<close>.\<close>

fun generate_products_loop :: "nat \<Rightarrow> int \<Rightarrow> world \<Rightarrow> error + (product list \<times> world)" where
  "generate_products_loop 0 i w = Inr ([], w)"
| "generate_products_loop (Suc k) i w =
     (case generate_products_body i w of
        Inl e \<Rightarrow> Inl e
      | Inr (p, w') \<Rightarrow>
          (case generate_products_loop k (i + 1) w' of
             Inl e \<Rightarrow> Inl e
           | Inr (ps, w'') \<Rightarrow> Inr (p # ps, w'')))"

text \<open>
  \<open>generate_products\<close> gives the list \<^verbatim>\<open>products\<close> of the rows appended; the frame returned
  is \<^verbatim>\<open>pd.DataFrame(products)\<close>, which the next section models as \<open>DataFrame\<close> of that list.
\<close>

definition generate_products :: "int \<Rightarrow> world \<Rightarrow> error + (product list \<times> world)" where
  "generate_products num_products w = generate_products_loop (nat num_products) 0 w"

section \<open>The transaction generator: \<^verbatim>\<open>generate_transactions\<close>\<close>

record transaction =
  t_sno :: int
  t_date :: string
  t_time :: string
  t_product_name :: string
  t_quantity :: int
  t_unit_price :: rat
  t_total_amount :: rat
  t_payment_mode :: string
  t_transaction_type :: string

definition DAILY_TRANSACTIONS_RANGE :: "int \<times> int" where
  "DAILY_TRANSACTIONS_RANGE = (80, 120)"

definition is_weekend :: "datetime \<Rightarrow> bool" where
  "is_weekend date = (weekday date \<ge> 5)"

definition multiplier :: "datetime \<Rightarrow> rat" where
  "multiplier date = (if is_weekend date then 13 / 10 else 1)"

text \<open>
  The catalog as \<^verbatim>\<open>generate_transactions\<close> reads it. A pandas frame built from a list of
  row dictionaries has their keys as columns; built from the empty list,
  \<^verbatim>\<open>pd.DataFrame([])\<close> has no columns at all, and \<^verbatim>\<open>products['product_name']\<close> raises
  \<^verbatim>\<open>KeyError\<close> on it. A frame that has the columns may still have no rows.
\<close>

datatype products_frame = Frame_without_columns | Frame "product list"

definition DataFrame :: "product list \<Rightarrow> products_frame" where
  "DataFrame rows = (if rows = [] then Frame_without_columns else Frame rows)"

text \<open>
  The body of the inner loop. \<^verbatim>\<open>products['product_name'].tolist()\<close> is the list of the
  rows' names, and \<^verbatim>\<open>products[products['product_name'] == product].iloc[0]\<close> is the first
  row of the frame with that name. The progress line logged after each day is not part
  of the model.
\<close>

definition generate_transactions_body ::
  "datetime \<Rightarrow> products_frame \<Rightarrow> int \<Rightarrow> world \<Rightarrow> error + (transaction \<times> world)" where
  "generate_transactions_body date products sno w0 =
     (case products of
        Frame_without_columns \<Rightarrow> Inl KeyError
      | Frame rows \<Rightarrow>
     (case random_choice (map p_product_name rows) w0 of
        Inl e \<Rightarrow> Inl e
      | Inr (product, w1) \<Rightarrow>
          (case filter (\<lambda>p. p_product_name p = product) rows of
             [] \<Rightarrow> Inl IndexError
           | product_data # _ \<Rightarrow>
               (let (qty, w2) = random_randint 1 5 w1;
                    mrp = p_mrp product_data
                in case random_choice [0, 0, 0, 5 / 100, 1 / 10] w2 of
                     Inl e \<Rightarrow> Inl e
                   | Inr (discount, w3) \<Rightarrow>
                       (let (time, w4) = fake_time_object w3
                        in case random_choice [''Cash'', ''UPI'', ''Credit''] w4 of
                             Inl e \<Rightarrow> Inl e
                           | Inr (payment_mode, w5) \<Rightarrow>
                               (let (transaction_type, w6) =
                                      random_choices [''Walk-in'', ''Phone Order'', ''Delivery'']
                                        [7 / 10, 2 / 10, 1 / 10] w5
                                in Inr (\<lparr>t_sno = sno,
                                         t_date = strftime_date date,
                                         t_time = strftime_time time,
                                         t_product_name = product,
                                         t_quantity = qty,
                                         t_unit_price = py_round (mrp * (1 - discount)) 2,
                                         t_total_amount =
                                           py_round (mrp * of_int qty * (1 - discount)) 2,
                                         t_payment_mode = payment_mode,
                                         t_transaction_type = transaction_type\<rparr>, w6)))))))"

text \<open>
  \<^verbatim>\<open>for _ in range(daily_transactions)\<close>: \<open>k\<close> iterations are left; the transactions
  appended, the next sequence number and the sources are returned.
\<close>

fun generate_transactions_inner ::
  "nat \<Rightarrow> datetime \<Rightarrow> products_frame \<Rightarrow> int \<Rightarrow> world
     \<Rightarrow> error + (transaction list \<times> int \<times> world)" where
  "generate_transactions_inner 0 date products sno w = Inr ([], sno, w)"
| "generate_transactions_inner (Suc k) date products sno w =
     (case generate_transactions_body date products sno w of
        Inl e \<Rightarrow> Inl e
      | Inr (t, w') \<Rightarrow>
          (case generate_transactions_inner k date products (sno + 1) w' of
             Inl e \<Rightarrow> Inl e
           | Inr (ts, sno', w'') \<Rightarrow> Inr (t # ts, sno', w'')))"

text \<open>One pass of the outer loop, for one yielded date.\<close>

definition generate_transactions_day ::
  "datetime \<Rightarrow> products_frame \<Rightarrow> int \<Rightarrow> world
     \<Rightarrow> error + (transaction list \<times> int \<times> world)" where
  "generate_transactions_day date products sno w =
     (let (base_transactions, w1) =
            random_randint (fst DAILY_TRANSACTIONS_RANGE) (snd DAILY_TRANSACTIONS_RANGE) w;
          daily_transactions = py_int (of_int base_transactions * multiplier date)
      in generate_transactions_inner (nat daily_transactions) date products sno w1)"

fun generate_transactions_outer ::
  "datetime list \<Rightarrow> products_frame \<Rightarrow> int \<Rightarrow> world
     \<Rightarrow> error + (transaction list \<times> int \<times> world)" where
  "generate_transactions_outer [] products sno w = Inr ([], sno, w)"
| "generate_transactions_outer (date # dates) products sno w =
     (case generate_transactions_day date products sno w of
        Inl e \<Rightarrow> Inl e
      | Inr (ts, sno', w') \<Rightarrow>
          (case generate_transactions_outer dates products sno' w' of
             Inl e \<Rightarrow> Inl e
           | Inr (ts', sno'', w'') \<Rightarrow> Inr (ts @ ts', sno'', w'')))"

definition generate_transactions ::
  "datetime \<Rightarrow> datetime \<Rightarrow> products_frame \<Rightarrow> world
     \<Rightarrow> error + (transaction list \<times> world)" where
  "generate_transactions start_date end_date products w =
     (case generate_dates start_date end_date of
        (dates, ended) \<Rightarrow>
          (case generate_transactions_outer dates products 1 w of
             Inl e \<Rightarrow> Inl e
           | Inr (transactions, sno, w') \<Rightarrow>
               (case ended of
                  Some e \<Rightarrow> Inl e
                | None \<Rightarrow> Inr (transactions, w'))))"

section \<open>The expense generator: \<^verbatim>\<open>generate_expenses\<close>\<close>

record details =
  d_frequency :: string
  d_amount :: "int \<times> int"

record expense =
  e_sno :: int
  e_date :: string
  e_category :: string
  e_amount :: rat
  e_frequency :: string
  e_notes :: string

definition expense_categories :: "(string \<times> details) list" where
  "expense_categories =
     [(''Rent'', \<lparr>d_frequency = ''monthly'', d_amount = (15000, 20000)\<rparr>),
      (''Electricity'', \<lparr>d_frequency = ''monthly'', d_amount = (3000, 5000)\<rparr>),
      (''Water'', \<lparr>d_frequency = ''monthly'', d_amount = (500, 800)\<rparr>),
      (''Staff Salary'', \<lparr>d_frequency = ''monthly'', d_amount = (8000, 12000)\<rparr>),
      (''Transportation'', \<lparr>d_frequency = ''daily'', d_amount = (100, 300)\<rparr>),
      (''Cleaning'', \<lparr>d_frequency = ''daily'', d_amount = (50, 100)\<rparr>),
      (''Maintenance'', \<lparr>d_frequency = ''weekly'', d_amount = (200, 500)\<rparr>),
      (''Internet & Phone'', \<lparr>d_frequency = ''monthly'', d_amount = (1000, 1500)\<rparr>),
      (''Packaging Material'', \<lparr>d_frequency = ''weekly'', d_amount = (500, 1000)\<rparr>),
      (''Miscellaneous'', \<lparr>d_frequency = ''daily'', d_amount = (100, 300)\<rparr>)]"

definition should_record :: "details \<Rightarrow> datetime \<Rightarrow> bool" where
  "should_record dets date =
     (let day_of_month = day_of date; day_of_week = weekday date
      in d_frequency dets = ''daily'' \<or>
         (d_frequency dets = ''weekly'' \<and> day_of_week = 0) \<or>
         (d_frequency dets = ''monthly'' \<and> day_of_month = 1))"

text \<open>\<^verbatim>\<open>for category, details in expense_categories.items()\<close>, on one date.\<close>

fun generate_expenses_inner ::
  "(string \<times> details) list \<Rightarrow> datetime \<Rightarrow> int \<Rightarrow> world \<Rightarrow> expense list \<times> int \<times> world" where
  "generate_expenses_inner [] date sno w = ([], sno, w)"
| "generate_expenses_inner ((category, dets) # rest) date sno w =
     (if should_record dets date then
        (let (min_amount, max_amount) = d_amount dets;
             (u, w') = random_uniform (of_int min_amount) (of_int max_amount) w;
             amount = py_round u 2;
             e = \<lparr>e_sno = sno,
                  e_date = strftime_date date,
                  e_category = category,
                  e_amount = amount,
                  e_frequency = d_frequency dets,
                  e_notes = ''Regular '' @ d_frequency dets @ '' '' @ lower category @ '' expense''\<rparr>
         in case generate_expenses_inner rest date (sno + 1) w' of
              (es, sno', w'') \<Rightarrow> (e # es, sno', w''))
      else generate_expenses_inner rest date sno w)"

fun generate_expenses_outer ::
  "datetime list \<Rightarrow> int \<Rightarrow> world \<Rightarrow> expense list \<times> int \<times> world" where
  "generate_expenses_outer [] sno w = ([], sno, w)"
| "generate_expenses_outer (date # dates) sno w =
     (case generate_expenses_inner expense_categories date sno w of
        (es, sno', w') \<Rightarrow>
          (case generate_expenses_outer dates sno' w' of
             (es', sno'', w'') \<Rightarrow> (es @ es', sno'', w'')))"

definition generate_expenses ::
  "datetime \<Rightarrow> datetime \<Rightarrow> world \<Rightarrow> error + (expense list \<times> world)" where
  "generate_expenses start_date end_date w =
     (case generate_dates start_date end_date of
        (dates, ended) \<Rightarrow>
          (case generate_expenses_outer dates 1 w of
             (expenses, sno, w') \<Rightarrow>
               (case ended of
                  Some e \<Rightarrow> Inl e
                | None \<Rightarrow> Inr (expenses, w'))))"

section \<open>Sample inputs\<close>

text \<open>A state of the two random sources, used to run the generators on concrete inputs.\<close>

definition sample_world :: world where
  "sample_world =
     \<lparr>random_state = siterate (\<lambda>r. r + 3141592653589793) 2718281828459045,
      company_names = sconst ''Tata Sons Ltd'',
      time_objects = siterate (\<lambda>t. t + 4321) 30000\<rparr>"

text \<open>
  A state of the random sources from which \<^verbatim>\<open>generate_products(1)\<close> draws the MRP
  \<^verbatim>\<open>uniform(10, 500)\<close> = 10.030000000000017, rounded to 10.03; the one-product catalog it
  makes; and the state it leaves behind, whose next draws are the base count 82 for the
  day, then for the first transaction the product 0, the quantity 3 and the discount 0.1.
\<close>

definition rounding_start_world :: world where
  "rounding_start_world =
     sample_world\<lparr>random_state :=
       0 ## 3 ## 551461178862 ## 0 ## 335 ## 2 ## 0 ## 2 ## 4 ## sconst 0\<rparr>"

definition rounding_catalog :: "product list" where
  "rounding_catalog =
     [\<lparr>p_sno = 1, p_product_name = ''Tata Salt'', p_category = ''Staples'',
       p_mrp = 1003 / 100, p_cost_price = 5, p_shelf_life_days = 365\<rparr>]"

definition rounding_world :: world where
  "rounding_world = sample_world\<lparr>random_state := 2 ## 0 ## 2 ## 4 ## sconst 0\<rparr>"

text \<open>
  The catalog \<^verbatim>\<open>generate_products(2)\<close> makes from \<open>sample_world\<close>, and the random sources it
  leaves behind.
\<close>

definition sample_catalog :: "product list" where
  "sample_catalog =
     [\<lparr>p_sno = 1, p_product_name = ''Tata Salt'', p_category = ''Staples'',
       p_mrp = 49969 / 100, p_cost_price = 3563 / 25, p_shelf_life_days = 35\<rparr>,
      \<lparr>p_sno = 2, p_product_name = ''Tata Salt'', p_category = ''Staples'',
       p_mrp = 18711 / 50, p_cost_price = 4137 / 100, p_shelf_life_days = 232\<rparr>]"

definition pipeline_world :: world where
  "pipeline_world =
     sample_world\<lparr>random_state := siterate (\<lambda>r. r + 3141592653589793) 34134208364356975\<rparr>"

section \<open>Properties of the calendar filter\<close>

lemmas calendar_defs =
  ymd2ord_def days_before_year_def days_before_month_def DAYS_BEFORE_MONTH_def
  DAYS_IN_MONTH_def is_leap_def ord2ymd_def DI400Y_def DI100Y_def DI4Y_def mk_datetime_def
  year_of_def month_of_def day_of_def weekday_def dt_le_def dt_lt_def add_days_def
  MAXORDINAL_def holidays_def

lemma generate_dates_loop_members:
  "d \<in> set (fst (generate_dates_loop c e)) \<Longrightarrow>
     weekday d < 6 \<and> d \<notin> set holidays \<and> dt_le c d \<and> dt_le d e"
proof (induction c e rule: generate_dates_loop.induct)
  case (1 c e)
  show ?case
  proof (cases "dt_le c e")
    case False
    with "1.prems" show ?thesis
      by (simp add: generate_dates_loop.simps [of c e])
  next
    case le: True
    show ?thesis
    proof (cases "add_days c 1")
      case (Inl err)
      with le "1.prems" have "d = c \<and> weekday c < 6 \<and> c \<notin> set holidays"
        by (simp add: generate_dates_loop.simps [of c e] split: if_splits)
      with le show ?thesis by (simp add: dt_le_def)
    next
      case (Inr n)
      then have n: "ordinal n = ordinal c + 1" "tod n = tod c"
        by (auto simp: add_days_def split: if_splits)
      from le Inr "1.prems"
      consider "d = c" "weekday c < 6" "c \<notin> set holidays"
        | "d \<in> set (fst (generate_dates_loop n e))"
        by (auto simp: generate_dates_loop.simps [of c e] split: if_splits prod.splits)
      then show ?thesis
      proof cases
        case 1
        with le show ?thesis by (simp add: dt_le_def)
      next
        case 2
        from "1.IH" [OF le refl Inr 2] n show ?thesis
          by (auto simp: dt_le_def)
      qed
    qed
  qed
qed

lemma generate_dates_loop_after:
  "add_days c 1 = Inr n \<Longrightarrow> d \<in> set (fst (generate_dates_loop n e)) \<Longrightarrow> dt_lt c d"
  using generate_dates_loop_members [of d n e]
  by (auto simp: add_days_def dt_le_def dt_lt_def split: if_splits)

lemma generate_dates_loop_sorted: "sorted_wrt dt_lt (fst (generate_dates_loop c e))"
proof (induction c e rule: generate_dates_loop.induct)
  case (1 c e)
  show ?case
  proof (cases "dt_le c e")
    case False
    then show ?thesis by (simp add: generate_dates_loop.simps [of c e])
  next
    case le: True
    show ?thesis
    proof (cases "add_days c 1")
      case (Inl err)
      with le show ?thesis by (simp add: generate_dates_loop.simps [of c e])
    next
      case (Inr n)
      obtain ds r where rest: "generate_dates_loop n e = (ds, r)"
        by (cases "generate_dates_loop n e")
      have "sorted_wrt dt_lt ds"
        using "1.IH" [OF le refl Inr] rest by simp
      moreover have "\<forall>d\<in>set ds. dt_lt c d"
        using generate_dates_loop_after [OF Inr, of _ e] rest by simp
      ultimately show ?thesis
        using le Inr rest by (simp add: generate_dates_loop.simps [of c e])
    qed
  qed
qed

lemma generate_dates_loop_empty_range:
  "dt_lt e s \<Longrightarrow> generate_dates_loop s e = ([], None)"
  by (auto simp: generate_dates_loop.simps [of s e] dt_le_def dt_lt_def)

lemma generate_dates_members:
  "d \<in> set (fst (generate_dates s e)) \<Longrightarrow>
     weekday d < 6 \<and> d \<notin> set holidays \<and> dt_le s d \<and> dt_le d e"
  unfolding generate_dates_def by (rule generate_dates_loop_members)

lemma weekday_range: "0 \<le> weekday d \<and> weekday d < 7"
  by (simp add: weekday_def)

lemma generate_dates_late_january:
  "generate_dates (mk_datetime 2024 1 25) (mk_datetime 2024 1 29) =
     ([\<lparr>ordinal = 738910, tod = 0\<rparr>, \<lparr>ordinal = 738912, tod = 0\<rparr>,
       \<lparr>ordinal = 738914, tod = 0\<rparr>], None)"
  by (simp add: generate_dates_def generate_dates_loop.simps calendar_defs Let_def)

lemma sample_days_formatted:
  "strftime_date \<lparr>ordinal = 738886, tod = 0\<rparr> = ''01-01-2024''"
  "strftime_date \<lparr>ordinal = 738887, tod = 0\<rparr> = ''02-01-2024''"
  "strftime_date \<lparr>ordinal = 738971, tod = 0\<rparr> = ''26-03-2024''"
  "strftime_date \<lparr>ordinal = 738972, tod = 0\<rparr> = ''27-03-2024''"
  "strftime_date \<lparr>ordinal = 739131, tod = 0\<rparr> = ''02-09-2024''"
  "strftime_date \<lparr>ordinal = 739132, tod = 0\<rparr> = ''03-09-2024''"
  by code_simp+
lemma sample_days_of_month:
  "day_of \<lparr>ordinal = 738886, tod = 0\<rparr> = 1"
  "day_of \<lparr>ordinal = 738887, tod = 0\<rparr> = 2"
  "day_of \<lparr>ordinal = 738971, tod = 0\<rparr> = 26"
  "day_of \<lparr>ordinal = 738972, tod = 0\<rparr> = 27"
  "day_of \<lparr>ordinal = 739131, tod = 0\<rparr> = 2"
  "day_of \<lparr>ordinal = 739132, tod = 0\<rparr> = 3"
  by code_simp+
lemma sample_weekdays:
  "weekday \<lparr>ordinal = 738886, tod = 0\<rparr> = 0"
  "weekday \<lparr>ordinal = 738887, tod = 0\<rparr> = 1"
  "weekday \<lparr>ordinal = 738971, tod = 0\<rparr> = 1"
  "weekday \<lparr>ordinal = 738972, tod = 0\<rparr> = 2"
  "weekday \<lparr>ordinal = 739131, tod = 0\<rparr> = 0"
  "weekday \<lparr>ordinal = 739132, tod = 0\<rparr> = 1"
  by (simp_all add: weekday_def)

text \<open>
  C3. For every start and end date, every date \<^verbatim>\<open>generate_dates\<close> yields has a weekday
  other than the excluded one (6, Sunday) and is not in the holiday list; the yielded
  dates are strictly ascending; and when the end date is before the start date nothing
  is yielded and the generator ends without an error.
\<close>

theorem generate_dates_business_days:
  "(\<forall>d\<in>set (fst (generate_dates s e)). weekday d \<noteq> 6 \<and> d \<notin> set holidays) \<and>
   sorted_wrt dt_lt (fst (generate_dates s e)) \<and>
   (dt_lt e s \<longrightarrow> generate_dates s e = ([], None))"
proof (intro conjI ballI impI)
  fix d assume "d \<in> set (fst (generate_dates s e))"
  from generate_dates_members [OF this]
  show "weekday d \<noteq> 6" and "d \<notin> set holidays" by simp_all
next
  show "sorted_wrt dt_lt (fst (generate_dates s e))"
    unfolding generate_dates_def by (rule generate_dates_loop_sorted)
next
  assume "dt_lt e s"
  then show "generate_dates s e = ([], None)"
    unfolding generate_dates_def by (rule generate_dates_loop_empty_range)
qed

theorem generate_dates_business_days_witness:
  "fst (generate_dates (mk_datetime 2024 1 25) (mk_datetime 2024 1 29)) =
     [\<lparr>ordinal = 738910, tod = 0\<rparr>, \<lparr>ordinal = 738912, tod = 0\<rparr>,
      \<lparr>ordinal = 738914, tod = 0\<rparr>] \<and>
   list_all (\<lambda>d. weekday d \<noteq> 6 \<and> d \<notin> set holidays)
     (fst (generate_dates (mk_datetime 2024 1 25) (mk_datetime 2024 1 29))) \<and>
   sorted_wrt dt_lt (fst (generate_dates (mk_datetime 2024 1 25) (mk_datetime 2024 1 29))) \<and>
   dt_lt (mk_datetime 2024 1 25) (mk_datetime 2024 1 29) \<and>
   generate_dates (mk_datetime 2024 1 29) (mk_datetime 2024 1 25) = ([], None)"
proof -
  have lt: "dt_lt (mk_datetime 2024 1 25) (mk_datetime 2024 1 29)"
    by (simp add: calendar_defs)
  note forward =
    generate_dates_business_days [of "mk_datetime 2024 1 25" "mk_datetime 2024 1 29"]
  note backward =
    generate_dates_business_days [of "mk_datetime 2024 1 29" "mk_datetime 2024 1 25"]
  from forward have "list_all (\<lambda>d. weekday d \<noteq> 6 \<and> d \<notin> set holidays)
      (fst (generate_dates (mk_datetime 2024 1 25) (mk_datetime 2024 1 29)))"
    unfolding list_all_iff by blast
  moreover from forward
  have "sorted_wrt dt_lt (fst (generate_dates (mk_datetime 2024 1 25) (mk_datetime 2024 1 29)))"
    by blast
  moreover from backward lt
  have "generate_dates (mk_datetime 2024 1 29) (mk_datetime 2024 1 25) = ([], None)"
    by blast
  ultimately show ?thesis
    using lt by (simp add: generate_dates_late_january)
qed

section \<open>Properties of the library functions\<close>

lemma floor_rat_divide_numeral [simp]:
  "\<lfloor>numeral a / numeral b :: rat\<rfloor> = numeral a div numeral b"
  using floor_divide_of_int_eq [of "numeral a" "numeral b", where ?'a = rat] by simp

lemma floor_rat_minus_divide_numeral [simp]:
  "\<lfloor>- (numeral a / numeral b) :: rat\<rfloor> = - numeral a div numeral b"
  using floor_divide_of_int_eq [of "- numeral a" "numeral b", where ?'a = rat] by simp

lemma round_half_even_cases:
  "round_half_even x = \<lfloor>x\<rfloor> \<and> x - of_int \<lfloor>x\<rfloor> \<le> 1 / 2 \<or>
   round_half_even x = \<lfloor>x\<rfloor> + 1 \<and> 1 / 2 \<le> x - of_int \<lfloor>x\<rfloor>"
  unfolding round_half_even_def Let_def by auto

lemma round_half_even_bounds:
  "of_int (round_half_even x) \<le> x + 1 / 2 \<and> x - 1 / 2 \<le> of_int (round_half_even x)"
proof -
  have fl: "of_int \<lfloor>x\<rfloor> \<le> x" "x < of_int \<lfloor>x\<rfloor> + 1" by linarith+
  from round_half_even_cases [of x] show ?thesis
  proof (elim disjE conjE)
    assume "round_half_even x = \<lfloor>x\<rfloor>" "x - of_int \<lfloor>x\<rfloor> \<le> 1 / 2"
    with fl show ?thesis by (simp; linarith?)
  next
    assume "round_half_even x = \<lfloor>x\<rfloor> + 1" "1 / 2 \<le> x - of_int \<lfloor>x\<rfloor>"
    with fl show ?thesis by (simp; linarith?)
  qed
qed

lemma round_half_even_of_int [simp]: "round_half_even (of_int n) = n"
  by (simp add: round_half_even_def)

lemma round_half_even_floor:
  "round_half_even x = \<lfloor>x\<rfloor> \<or> round_half_even x = \<lfloor>x\<rfloor> + 1"
  by (simp add: round_half_even_def Let_def)

lemma round_half_even_mono:
  assumes "x \<le> y"
  shows "round_half_even x \<le> round_half_even y"
proof (cases "\<lfloor>x\<rfloor> = \<lfloor>y\<rfloor>")
  case True
  with assms show ?thesis
    by (auto simp: round_half_even_def Let_def)
next
  case False
  with assms have "\<lfloor>x\<rfloor> + 1 \<le> \<lfloor>y\<rfloor>"
    using floor_mono [OF assms] by linarith
  moreover have "round_half_even x \<le> \<lfloor>x\<rfloor> + 1"
    using round_half_even_floor [of x] by linarith
  moreover have "\<lfloor>y\<rfloor> \<le> round_half_even y"
    using round_half_even_floor [of y] by linarith
  ultimately show ?thesis by linarith
qed

lemma py_round_mono: "x \<le> y \<Longrightarrow> py_round x n \<le> py_round y n"
  by (simp add: py_round_def round_half_even_mono divide_right_mono mult_right_mono)

lemma py_round_hundredths [simp]: "py_round (of_int k / 100) 2 = of_int k / 100"
  by (simp add: py_round_def)

lemma py_round_of_int [simp]: "py_round (of_int k) 2 = of_int k"
  using py_round_hundredths [of "k * 100"] by simp

lemma py_round_two_decimals: "of_int \<lfloor>py_round x 2 * 100\<rfloor> = py_round x 2 * 100"
  by (simp add: py_round_def)

lemma py_round_between:
  "of_int lo \<le> x \<Longrightarrow> x \<le> of_int hi \<Longrightarrow> of_int lo \<le> py_round x 2 \<and> py_round x 2 \<le> of_int hi"
  using py_round_mono [of "of_int lo" x 2] py_round_mono [of x "of_int hi" 2] by simp

lemma py_round_error: "\<bar>py_round x 2 - x\<bar> \<le> 1 / 200"
proof -
  from round_half_even_bounds [of "x * 100"]
  have "\<bar>of_int (round_half_even (x * 100)) - x * 100\<bar> \<le> 1 / 2" by linarith
  then have "\<bar>of_int (round_half_even (x * 100)) / 100 - x\<bar> \<le> 1 / 200" by linarith
  then show ?thesis by (simp add: py_round_def)
qed

lemma random_random_range:
  "random_random w = (u, w') \<Longrightarrow> 0 \<le> u \<and> u < 1"
  by (auto simp: random_random_def next_raw_def)

lemma random_uniform_range:
  assumes "random_uniform a b w = (x, w')" "a \<le> b"
  shows "a \<le> x \<and> x \<le> b"
proof -
  obtain u where u: "random_random w = (u, w')" "x = a + (b - a) * u"
    using assms(1) by (auto simp: random_uniform_def split: prod.splits)
  from random_random_range [OF u(1)] have "0 \<le> u" "u \<le> 1" by simp_all
  with assms(2) have "0 \<le> (b - a) * u" "(b - a) * u \<le> b - a"
    by (simp_all add: mult_left_le)
  with u(2) show ?thesis by simp
qed

lemma randbelow_range:
  "randbelow n w = (i, w') \<Longrightarrow> 0 < n \<Longrightarrow> 0 \<le> i \<and> i < n"
  by (auto simp: randbelow_def next_raw_def)

lemma random_randint_range:
  assumes "random_randint a b w = (x, w')" "a \<le> b"
  shows "a \<le> x \<and> x \<le> b"
proof -
  obtain i where i: "randbelow (b + 1 - a) w = (i, w')" "x = a + i"
    using assms(1) by (auto simp: random_randint_def split: prod.splits)
  from randbelow_range [OF i(1)] assms(2) i(2) show ?thesis by simp
qed

lemma random_choice_member:
  assumes "random_choice xs w = Inr (x, w')"
  shows "x \<in> set xs"
proof -
  from assms have ne: "xs \<noteq> []"
    by (auto simp: random_choice_def)
  with assms obtain i where i: "randbelow (int (length xs)) w = (i, w')" "x = xs ! nat i"
    by (auto simp: random_choice_def split: prod.splits)
  from randbelow_range [OF i(1)] ne have "nat i < length xs" by (simp add: nat_less_iff)
  with i(2) show ?thesis by simp
qed

lemma random_choice_returns:
  "xs \<noteq> [] \<Longrightarrow> \<exists>x w'. random_choice xs w = Inr (x, w')"
  by (auto simp: random_choice_def split: prod.splits)

lemma random_choice_empty [simp]: "random_choice [] w = Inl IndexError"
  by (simp add: random_choice_def)

lemmas library_defs =
  next_raw_def randbelow_def random_random_def random_choice_def random_randint_def
  random_uniform_def bisect_def random_choices_def fake_company_def fake_time_object_def
  strftime_time_def round_half_even_def py_round_def py_int_def is_space_def split_first_def
  lower_char_def lower_def


section \<open>Properties of the catalog generator\<close>

lemma categories_lookup:
  "category \<in> set (map fst categories) \<Longrightarrow> \<exists>names. map_of categories category = Some names \<and> names \<noteq> []"
  by (auto simp: categories_def)

lemma generate_products_body_result:
  assumes "generate_products_body i w = Inr (p, w')"
  shows "p_sno p = i + 1 \<and>
         10 \<le> p_mrp p \<and> p_mrp p \<le> 500 \<and>
         5 \<le> p_cost_price p \<and> p_cost_price p \<le> 400 \<and>
         30 \<le> p_shelf_life_days p \<and> p_shelf_life_days p \<le> 720 \<and>
         of_int \<lfloor>p_mrp p * 100\<rfloor> = p_mrp p * 100 \<and>
         of_int \<lfloor>p_cost_price p * 100\<rfloor> = p_cost_price p * 100 \<and>
         company_names w' = stl (company_names w)"
proof -
  from assms obtain category w1 names base_name w2 brand mrp w4 cost_price w5 shelf w6 where
    c1: "random_choice (map fst categories) w = Inr (category, w1)" and
    c2: "random_choice names w1 = Inr (base_name, w2)" and
    m: "random_uniform 10 500 (snd (fake_company w2)) = (mrp, w4)" and
    c: "random_uniform 5 400 w4 = (cost_price, w5)" and
    s: "random_randint 30 720 w5 = (shelf, w6)" and
    p: "p = \<lparr>p_sno = i + 1, p_product_name = brand @ '' '' @ base_name, p_category = category,
             p_mrp = py_round mrp 2, p_cost_price = py_round cost_price 2,
             p_shelf_life_days = shelf\<rparr>" and
    w': "w' = w6"
    by (auto simp: generate_products_body_def Let_def
             split: sum.splits option.splits prod.splits)
  have names: "company_names w1 = company_names w" "company_names w2 = company_names w1"
    using c1 c2
    by (auto simp: random_choice_def randbelow_def next_raw_def split: if_splits prod.splits)
  have "company_names w4 = stl (company_names w2)"
    using m by (auto simp: random_uniform_def random_random_def next_raw_def fake_company_def
                     split: prod.splits)
  moreover have "company_names w5 = company_names w4"
    using c by (auto simp: random_uniform_def random_random_def next_raw_def split: prod.splits)
  moreover have "company_names w6 = company_names w5"
    using s by (auto simp: random_randint_def randbelow_def next_raw_def split: prod.splits)
  ultimately have stream: "company_names w' = stl (company_names w)"
    using names w' by simp
  from random_uniform_range [OF m] have "of_int 10 \<le> mrp" "mrp \<le> of_int 500" by simp_all
  from py_round_between [OF this] have mrp: "10 \<le> py_round mrp 2" "py_round mrp 2 \<le> 500"
    by simp_all
  from random_uniform_range [OF c] have "of_int 5 \<le> cost_price" "cost_price \<le> of_int 400"
    by simp_all
  from py_round_between [OF this]
  have cost: "5 \<le> py_round cost_price 2" "py_round cost_price 2 \<le> 400"
    by simp_all
  from random_randint_range [OF s] have shelf: "30 \<le> shelf" "shelf \<le> 720" by simp_all
  from mrp cost shelf stream p show ?thesis
    by (simp add: py_round_two_decimals)
qed

lemma generate_products_body_returns:
  assumes "split_first (shd (company_names w)) \<noteq> Inl IndexError"
  shows "\<exists>p w'. generate_products_body i w = Inr (p, w')"
proof -
  obtain category w1 where c1: "random_choice (map fst categories) w = Inr (category, w1)"
    using random_choice_returns [of "map fst categories" w] by (auto simp: categories_def)
  from random_choice_member [OF c1] categories_lookup
  obtain names where n: "map_of categories category = Some names" "names \<noteq> []" by blast
  obtain base_name w2 where c2: "random_choice names w1 = Inr (base_name, w2)"
    using random_choice_returns [OF n(2)] by blast
  have "company_names w2 = company_names w"
    using c1 c2
    by (auto simp: random_choice_def randbelow_def next_raw_def split: if_splits prod.splits)
  with assms obtain brand where b: "split_first (fst (fake_company w2)) = Inr brand"
    by (cases "split_first (shd (company_names w))")
       (auto simp: fake_company_def split_first_def split: list.splits)
  show ?thesis
    using c1 n(1) c2 b
    by (auto simp: generate_products_body_def Let_def split: prod.splits)
qed

lemma generate_products_loop_result:
  "generate_products_loop k i w = Inr (ps, w') \<Longrightarrow>
     length ps = k \<and> map p_sno ps = [i + 1..i + int k] \<and>
     (\<forall>p\<in>set ps.
         10 \<le> p_mrp p \<and> p_mrp p \<le> 500 \<and>
         5 \<le> p_cost_price p \<and> p_cost_price p \<le> 400 \<and>
         30 \<le> p_shelf_life_days p \<and> p_shelf_life_days p \<le> 720 \<and>
         of_int \<lfloor>p_mrp p * 100\<rfloor> = p_mrp p * 100 \<and>
         of_int \<lfloor>p_cost_price p * 100\<rfloor> = p_cost_price p * 100)"
proof (induction k arbitrary: i w ps)
  case 0
  then show ?case by simp
next
  case (Suc k)
  from Suc.prems obtain p w1 ps' where
    b: "generate_products_body i w = Inr (p, w1)" and
    r: "generate_products_loop k (i + 1) w1 = Inr (ps', w')" and
    ps: "ps = p # ps'"
    by (auto split: sum.splits prod.splits)
  have up: "[i + 1..i + int (Suc k)] = (i + 1) # [i + 1 + 1..i + 1 + int k]"
    using upto_rec1 [of "i + 1" "i + int (Suc k)"] by (simp add: algebra_simps)
  from Suc.IH [OF r] have len: "length ps' = k"
    and sno: "map p_sno ps' = [i + 1 + 1..i + 1 + int k]" by blast+
  from generate_products_body_result [OF b] have "p_sno p = i + 1" by blast
  with sno have "map p_sno ps = [i + 1..i + int (Suc k)]"
    unfolding up ps by simp
  moreover from len ps have "length ps = Suc k" by simp
  moreover from Suc.IH [OF r] generate_products_body_result [OF b] ps
  have "\<forall>p\<in>set ps.
         10 \<le> p_mrp p \<and> p_mrp p \<le> 500 \<and>
         5 \<le> p_cost_price p \<and> p_cost_price p \<le> 400 \<and>
         30 \<le> p_shelf_life_days p \<and> p_shelf_life_days p \<le> 720 \<and>
         of_int \<lfloor>p_mrp p * 100\<rfloor> = p_mrp p * 100 \<and>
         of_int \<lfloor>p_cost_price p * 100\<rfloor> = p_cost_price p * 100"
    by simp
  ultimately show ?case by blast
qed

lemma generate_products_loop_returns:
  "\<forall>c\<in>set (stake k (company_names w)). split_first c \<noteq> Inl IndexError \<Longrightarrow>
   \<exists>ps w'. generate_products_loop k i w = Inr (ps, w')"
proof (induction k arbitrary: i w)
  case 0
  then show ?case by simp
next
  case (Suc k)
  then have "split_first (shd (company_names w)) \<noteq> Inl IndexError" by simp
  from generate_products_body_returns [OF this]
  obtain p w1 where b: "generate_products_body i w = Inr (p, w1)" by blast
  from generate_products_body_result [OF b] Suc.prems
  have "\<forall>c\<in>set (stake k (company_names w1)). split_first c \<noteq> Inl IndexError" by simp
  from Suc.IH [OF this] obtain ps w' where "generate_products_loop k (i + 1) w1 = Inr (ps, w')"
    by blast
  with b show ?case by simp
qed

lemma generate_products_sample:
  "generate_products 2 sample_world =
     Inr ([\<lparr>p_sno = 1, p_product_name = ''Tata Salt'', p_category = ''Staples'',
            p_mrp = 49969 / 100, p_cost_price = 3563 / 25, p_shelf_life_days = 35\<rparr>,
           \<lparr>p_sno = 2, p_product_name = ''Tata Salt'', p_category = ''Staples'',
            p_mrp = 18711 / 50, p_cost_price = 4137 / 100, p_shelf_life_days = 232\<rparr>],
          sample_world\<lparr>random_state := siterate (\<lambda>r. r + 3141592653589793) 34134208364356975\<rparr>)"
  by (simp add: generate_products_def generate_products_body_def categories_def
        sample_world_def library_defs Let_def eval_nat_numeral)

lemma generate_products_sample_catalog:
  "generate_products 2 sample_world = Inr (sample_catalog, pipeline_world)"
  by (simp add: generate_products_sample sample_catalog_def pipeline_world_def)

lemma generate_products_rounding_catalog:
  "generate_products 1 rounding_start_world = Inr (rounding_catalog, rounding_world)"
  by (simp add: generate_products_def generate_products_body_def categories_def
        rounding_start_world_def rounding_catalog_def rounding_world_def
        sample_world_def library_defs Let_def)

text \<open>
  C4. For every target count \<open>n\<close>, the catalog \<^verbatim>\<open>generate_products\<close> returns has exactly
  \<open>n\<close> records (none for a negative \<open>n\<close>, as \<^verbatim>\<open>range(n)\<close> is empty then); every record's
  MRP lies in [10, 500], its cost price in [5, 400] and its shelf life in [30, 720], and
  both prices are multiples of 0.01. The function does return when the company names
  \<^verbatim>\<open>fake.company()\<close> gives for the \<open>n\<close> products each have a first word.
\<close>

theorem generate_products_count_and_bounds:
  "(\<forall>ps w'. generate_products n w = Inr (ps, w') \<longrightarrow>
      length ps = nat n \<and>
      (\<forall>p\<in>set ps.
         10 \<le> p_mrp p \<and> p_mrp p \<le> 500 \<and>
         5 \<le> p_cost_price p \<and> p_cost_price p \<le> 400 \<and>
         30 \<le> p_shelf_life_days p \<and> p_shelf_life_days p \<le> 720 \<and>
         of_int \<lfloor>p_mrp p * 100\<rfloor> = p_mrp p * 100 \<and>
         of_int \<lfloor>p_cost_price p * 100\<rfloor> = p_cost_price p * 100)) \<and>
   ((\<forall>c\<in>set (stake (nat n) (company_names w)). split_first c \<noteq> Inl IndexError) \<longrightarrow>
      (\<exists>ps w'. generate_products n w = Inr (ps, w')))"
proof (intro conjI allI impI)
  fix ps w' assume "generate_products n w = Inr (ps, w')"
  then have loop: "generate_products_loop (nat n) 0 w = Inr (ps, w')"
    by (simp add: generate_products_def)
  from generate_products_loop_result [OF loop] show "length ps = nat n" by blast
  from generate_products_loop_result [OF loop]
  show "\<forall>p\<in>set ps.
         10 \<le> p_mrp p \<and> p_mrp p \<le> 500 \<and>
         5 \<le> p_cost_price p \<and> p_cost_price p \<le> 400 \<and>
         30 \<le> p_shelf_life_days p \<and> p_shelf_life_days p \<le> 720 \<and>
         of_int \<lfloor>p_mrp p * 100\<rfloor> = p_mrp p * 100 \<and>
         of_int \<lfloor>p_cost_price p * 100\<rfloor> = p_cost_price p * 100"
    by blast
next
  assume "\<forall>c\<in>set (stake (nat n) (company_names w)). split_first c \<noteq> Inl IndexError"
  from generate_products_loop_returns [OF this, of 0]
  show "\<exists>ps w'. generate_products n w = Inr (ps, w')"
    by (simp add: generate_products_def)
qed

theorem generate_products_count_and_bounds_witness:
  "list_all (\<lambda>c. split_first c \<noteq> Inl IndexError) (stake (nat 2) (company_names sample_world)) \<and>
   (\<exists>ps w'. generate_products 2 sample_world = Inr (ps, w') \<and>
      ps = [\<lparr>p_sno = 1, p_product_name = ''Tata Salt'', p_category = ''Staples'',
             p_mrp = 49969 / 100, p_cost_price = 3563 / 25, p_shelf_life_days = 35\<rparr>,
            \<lparr>p_sno = 2, p_product_name = ''Tata Salt'', p_category = ''Staples'',
             p_mrp = 18711 / 50, p_cost_price = 4137 / 100, p_shelf_life_days = 232\<rparr>] \<and>
      length ps = 2 \<and>
      list_all (\<lambda>p. 10 \<le> p_mrp p \<and> p_mrp p \<le> 500 \<and>
         5 \<le> p_cost_price p \<and> p_cost_price p \<le> 400 \<and>
         30 \<le> p_shelf_life_days p \<and> p_shelf_life_days p \<le> 720 \<and>
         of_int \<lfloor>p_mrp p * 100\<rfloor> = p_mrp p * 100 \<and>
         of_int \<lfloor>p_cost_price p * 100\<rfloor> = p_cost_price p * 100) ps)"
proof -
  have names: "list_all (\<lambda>c. split_first c \<noteq> Inl IndexError)
      (stake (nat 2) (company_names sample_world))"
    by (simp add: sample_world_def split_first_def is_space_def eval_nat_numeral)
  note inst = generate_products_count_and_bounds [of 2 sample_world]
  from inst names obtain ps w' where r: "generate_products 2 sample_world = Inr (ps, w')"
    unfolding list_all_iff by blast
  with inst have "length ps = nat 2 \<and> list_all (\<lambda>p. 10 \<le> p_mrp p \<and> p_mrp p \<le> 500 \<and>
         5 \<le> p_cost_price p \<and> p_cost_price p \<le> 400 \<and>
         30 \<le> p_shelf_life_days p \<and> p_shelf_life_days p \<le> 720 \<and>
         of_int \<lfloor>p_mrp p * 100\<rfloor> = p_mrp p * 100 \<and>
         of_int \<lfloor>p_cost_price p * 100\<rfloor> = p_cost_price p * 100) ps"
    unfolding list_all_iff by blast
  with r names generate_products_sample show ?thesis by simp
qed

section \<open>Properties of the transaction generator\<close>

lemma filter_first_is_find:
  "filter P xs = x # rest \<Longrightarrow> find P xs = Some x"
  by (induction xs) (auto split: if_splits)

lemma DataFrame_rows [simp]: "rows \<noteq> [] \<Longrightarrow> DataFrame rows = Frame rows"
  by (simp add: DataFrame_def)

lemma DataFrame_empty [simp]: "DataFrame [] = Frame_without_columns"
  by (simp add: DataFrame_def)

lemma generate_transactions_body_no_columns:
  "generate_transactions_body date Frame_without_columns sno w = Inl KeyError"
  by (simp add: generate_transactions_body_def)

lemma generate_transactions_body_no_rows:
  "generate_transactions_body date (Frame []) sno w = Inl IndexError"
  by (simp add: generate_transactions_body_def)

lemma generate_transactions_body_frame:
  assumes "generate_transactions_body date products sno w = Inr (t, w')"
  obtains rows where "products = Frame rows" "rows \<noteq> []"
  using assms generate_transactions_body_no_columns generate_transactions_body_no_rows
  by (cases products) force+

lemma generate_transactions_body_DataFrame:
  assumes "generate_transactions_body date (DataFrame rows) sno w = Inr (t, w')"
  shows "generate_transactions_body date (Frame rows) sno w = Inr (t, w')"
  using assms generate_transactions_body_no_columns [of date sno w]
  by (cases "rows = []") simp_all

lemma generate_transactions_body_result:
  assumes "generate_transactions_body date (Frame rows) sno w = Inr (t, w')"
  shows "1 \<le> t_quantity t \<and> t_quantity t \<le> 5 \<and>
         (\<exists>p discount.
            find (\<lambda>p. p_product_name p = t_product_name t) rows = Some p \<and>
            discount \<in> {0, 5 / 100, 1 / 10} \<and>
            t_unit_price t = py_round (p_mrp p * (1 - discount)) 2 \<and>
            t_total_amount t = py_round (p_mrp p * of_int (t_quantity t) * (1 - discount)) 2)"
proof -
  from assms obtain product w1 product_data rest qty w2 discount w3 where
    c1: "random_choice (map p_product_name rows) w = Inr (product, w1)" and
    f: "filter (\<lambda>p. p_product_name p = product) rows = product_data # rest" and
    q: "random_randint 1 5 w1 = (qty, w2)" and
    d: "random_choice [0, 0, 0, 5 / 100, 1 / 10] w2 = Inr (discount, w3)" and
    t: "t_product_name t = product" "t_quantity t = qty"
       "t_unit_price t = py_round (p_mrp product_data * (1 - discount)) 2"
       "t_total_amount t = py_round (p_mrp product_data * of_int qty * (1 - discount)) 2"
    unfolding generate_transactions_body_def Let_def
    by (auto split: sum.splits list.splits prod.splits)
  from random_choice_member [OF d] have "discount \<in> {0, 5 / 100, 1 / 10}" by auto
  moreover from filter_first_is_find [OF f] t(1)
  have "find (\<lambda>p. p_product_name p = t_product_name t) rows = Some product_data" by simp
  moreover from random_randint_range [OF q] t(2) have "1 \<le> t_quantity t" "t_quantity t \<le> 5"
    by simp_all
  ultimately show ?thesis using t by blast
qed

lemma generate_transactions_body_stamp:
  assumes "generate_transactions_body date products sno w = Inr (t, w')"
  shows "t_sno t = sno \<and> t_date t = strftime_date date"
proof -
  from assms obtain rows where "products = Frame rows"
    by (rule generate_transactions_body_frame)
  with assms show ?thesis
    unfolding generate_transactions_body_def Let_def
    by (auto split: sum.splits list.splits prod.splits)
qed

lemma generate_transactions_body_returns:
  assumes "rows \<noteq> []"
  shows "\<exists>t w'. generate_transactions_body date (Frame rows) sno w = Inr (t, w')"
proof -
  from assms obtain product w1 where
    c1: "random_choice (map p_product_name rows) w = Inr (product, w1)"
    using random_choice_returns [of "map p_product_name rows" w] by auto
  from random_choice_member [OF c1] have "filter (\<lambda>p. p_product_name p = product) rows \<noteq> []"
    by (auto simp: filter_empty_conv)
  then obtain product_data rest where
    f: "filter (\<lambda>p. p_product_name p = product) rows = product_data # rest"
    by (cases "filter (\<lambda>p. p_product_name p = product) rows") auto
  show ?thesis
    unfolding generate_transactions_body_def Let_def
    using c1 f by (auto simp: random_choice_def split: prod.splits)
qed

lemma generate_transactions_inner_all:
  assumes body: "\<And>sno w t w'. generate_transactions_body date products sno w = Inr (t, w') \<Longrightarrow> P t"
  shows "generate_transactions_inner k date products sno w = Inr (ts, sno', w') \<Longrightarrow>
         \<forall>t\<in>set ts. P t"
proof (induction k arbitrary: sno w ts)
  case 0
  then show ?case by simp
next
  case (Suc k)
  from Suc.prems obtain t w1 ts' where
    b: "generate_transactions_body date products sno w = Inr (t, w1)" and
    r: "generate_transactions_inner k date products (sno + 1) w1 = Inr (ts', sno', w')" and
    ts: "ts = t # ts'"
    by (auto split: sum.splits prod.splits)
  from body [OF b] Suc.IH [OF r] ts show ?case by simp
qed

lemma generate_transactions_inner_sno:
  "generate_transactions_inner k date products sno w = Inr (ts, sno', w') \<Longrightarrow>
     length ts = k \<and> sno' = sno + int k \<and> (\<forall>j<k. t_sno (ts ! j) = sno + int j)"
proof (induction k arbitrary: sno w ts)
  case 0
  then show ?case by simp
next
  case (Suc k)
  from Suc.prems obtain t w1 ts' where
    b: "generate_transactions_body date products sno w = Inr (t, w1)" and
    r: "generate_transactions_inner k date products (sno + 1) w1 = Inr (ts', sno', w')" and
    ts: "ts = t # ts'"
    by (auto split: sum.splits prod.splits)
  from generate_transactions_body_stamp [OF b] have t: "t_sno t = sno" by blast
  from Suc.IH [OF r] have ih: "length ts' = k" "sno' = sno + 1 + int k"
    "\<forall>j<k. t_sno (ts' ! j) = sno + 1 + int j" by blast+
  have "t_sno (ts ! j) = sno + int j" if "j < Suc k" for j
  proof (cases j)
    case 0
    with t ts show ?thesis by simp
  next
    case (Suc i)
    with that ih(3) ts show ?thesis by simp
  qed
  with ih ts show ?case by simp
qed

lemma generate_transactions_inner_returns:
  "rows \<noteq> [] \<Longrightarrow>
     \<exists>ts sno' w'. generate_transactions_inner k date (Frame rows) sno w = Inr (ts, sno', w')"
proof (induction k arbitrary: sno w)
  case 0
  then show ?case by simp
next
  case (Suc k)
  from generate_transactions_body_returns [OF Suc.prems]
  obtain t w1 where b: "generate_transactions_body date (Frame rows) sno w = Inr (t, w1)"
    by blast
  from Suc.IH [OF Suc.prems] obtain ts sno' w' where
    "generate_transactions_inner k date (Frame rows) (sno + 1) w1 = Inr (ts, sno', w')" by blast
  with b show ?case by simp
qed

lemma daily_transactions_at_least:
  assumes "random_randint (fst DAILY_TRANSACTIONS_RANGE) (snd DAILY_TRANSACTIONS_RANGE) w = (base, w1)"
  shows "80 \<le> py_int (of_int base * multiplier date)"
proof -
  from random_randint_range [OF assms] have b: "80 \<le> base"
    by (simp add: DAILY_TRANSACTIONS_RANGE_def)
  then have b': "(80 :: rat) \<le> of_int base" by linarith
  then have "(of_int base :: rat) * 1 \<le> of_int base * multiplier date"
    by (intro mult_left_mono) (simp_all add: multiplier_def)
  with b' have "(80 :: rat) \<le> of_int base * multiplier date" by linarith
  then have "80 \<le> \<lfloor>of_int base * multiplier date\<rfloor>" "0 \<le> of_int base * multiplier date"
    by (simp_all add: le_floor_iff)
  then show ?thesis by (simp add: py_int_def)
qed

lemma generate_transactions_day_inner:
  "\<exists>base w1. random_randint 80 120 w = (base, w1) \<and> 80 \<le> base \<and> base \<le> 120 \<and>
     80 \<le> py_int (of_int base * multiplier date) \<and>
     generate_transactions_day date products sno w =
       generate_transactions_inner (nat (py_int (of_int base * multiplier date)))
         date products sno w1"
proof -
  obtain base w1 where r: "random_randint 80 120 w = (base, w1)"
    by (cases "random_randint 80 120 w")
  then have r': "random_randint (fst DAILY_TRANSACTIONS_RANGE) (snd DAILY_TRANSACTIONS_RANGE) w
      = (base, w1)"
    by (simp add: DAILY_TRANSACTIONS_RANGE_def)
  from random_randint_range [OF r] daily_transactions_at_least [OF r', of date] r r'
  show ?thesis
    unfolding generate_transactions_day_def Let_def by auto
qed

lemma generate_transactions_day_all:
  assumes body: "\<And>sno w t w'. generate_transactions_body date products sno w = Inr (t, w') \<Longrightarrow> P t"
    and day: "generate_transactions_day date products sno w = Inr (ts, sno', w')"
  shows "\<forall>t\<in>set ts. P t"
proof -
  from generate_transactions_day_inner [of w date products sno] day obtain k w1 where
    "generate_transactions_inner k date products sno w1 = Inr (ts, sno', w')" by auto
  from generate_transactions_inner_all [of date products P, OF body this] show ?thesis .
qed

lemma generate_transactions_day_sno:
  assumes "generate_transactions_day date products sno w = Inr (ts, sno', w')"
  shows "80 \<le> length ts \<and> sno' = sno + int (length ts) \<and>
         (\<forall>j<length ts. t_sno (ts ! j) = sno + int j)"
proof -
  from generate_transactions_day_inner [of w date products sno] assms obtain base w1 where
    k: "80 \<le> py_int (of_int base * multiplier date)"
       "generate_transactions_inner (nat (py_int (of_int base * multiplier date)))
          date products sno w1 = Inr (ts, sno', w')"
    by auto
  from generate_transactions_inner_sno [OF k(2)] k(1) show ?thesis by simp
qed

lemma generate_transactions_day_count:
  assumes "generate_transactions_day date products sno w = Inr (ts, sno', w')"
  shows "int (length ts) = py_int (of_int (fst (random_randint 80 120 w)) * multiplier date)"
proof -
  from generate_transactions_day_inner [of w date products sno] assms obtain base w1 where
    k: "random_randint 80 120 w = (base, w1)" "80 \<le> py_int (of_int base * multiplier date)"
       "generate_transactions_inner (nat (py_int (of_int base * multiplier date)))
          date products sno w1 = Inr (ts, sno', w')"
    by auto
  from generate_transactions_inner_sno [OF k(3)] k(1,2) show ?thesis by simp
qed

lemma generate_transactions_day_returns:
  "rows \<noteq> [] \<Longrightarrow>
     \<exists>ts sno' w'. generate_transactions_day date (Frame rows) sno w = Inr (ts, sno', w')"
  using generate_transactions_day_inner [of w date "Frame rows" sno]
    generate_transactions_inner_returns [of rows _ date sno]
  by metis

lemma generate_transactions_day_raises:
  assumes "\<And>sno w. generate_transactions_body date products sno w = Inl err"
  shows "generate_transactions_day date products sno w = Inl err"
proof -
  from generate_transactions_day_inner [of w date products sno] obtain base w1 where
    k: "80 \<le> py_int (of_int base * multiplier date)"
       "generate_transactions_day date products sno w =
        generate_transactions_inner (nat (py_int (of_int base * multiplier date)))
          date products sno w1" by blast
  then obtain k' where "nat (py_int (of_int base * multiplier date)) = Suc k'"
    by (cases "nat (py_int (of_int base * multiplier date))") auto
  with k(2) assms show ?thesis by simp
qed

lemma generate_transactions_outer_all:
  assumes body: "\<And>date sno w t w'.
     generate_transactions_body date products sno w = Inr (t, w') \<Longrightarrow> P date t"
  shows "generate_transactions_outer dates products sno w = Inr (ts, sno', w') \<Longrightarrow>
         \<forall>t\<in>set ts. \<exists>date\<in>set dates. P date t"
proof (induction dates arbitrary: sno w ts)
  case Nil
  then show ?case by simp
next
  case (Cons date dates)
  from Cons.prems obtain ts1 sno1 w1 ts2 where
    d: "generate_transactions_day date products sno w = Inr (ts1, sno1, w1)" and
    r: "generate_transactions_outer dates products sno1 w1 = Inr (ts2, sno', w')" and
    ts: "ts = ts1 @ ts2"
    by (auto split: sum.splits prod.splits)
  from generate_transactions_day_all [of date products "P date", OF body d]
  have "\<forall>t\<in>set ts1. P date t" .
  with Cons.IH [OF r] ts show ?case by auto
qed

lemma generate_transactions_outer_sno:
  "generate_transactions_outer dates products sno w = Inr (ts, sno', w') \<Longrightarrow>
     80 * length dates \<le> length ts \<and> sno' = sno + int (length ts) \<and>
     (\<forall>j<length ts. t_sno (ts ! j) = sno + int j)"
proof (induction dates arbitrary: sno w ts)
  case Nil
  then show ?case by simp
next
  case (Cons date dates)
  from Cons.prems obtain ts1 sno1 w1 ts2 where
    d: "generate_transactions_day date products sno w = Inr (ts1, sno1, w1)" and
    r: "generate_transactions_outer dates products sno1 w1 = Inr (ts2, sno', w')" and
    ts: "ts = ts1 @ ts2"
    by (auto split: sum.splits prod.splits)
  from generate_transactions_day_sno [OF d] have d1: "80 \<le> length ts1"
    "sno1 = sno + int (length ts1)" "\<forall>j<length ts1. t_sno (ts1 ! j) = sno + int j" by blast+
  from Cons.IH [OF r] have d2: "80 * length dates \<le> length ts2"
    "sno' = sno1 + int (length ts2)" "\<forall>j<length ts2. t_sno (ts2 ! j) = sno1 + int j" by blast+
  have "t_sno (ts ! j) = sno + int j" if "j < length ts" for j
  proof (cases "j < length ts1")
    case True
    with d1(3) ts show ?thesis by (simp add: nth_append)
  next
    case False
    with that ts have "j - length ts1 < length ts2" by simp
    with d2(3) d1(2) False ts show ?thesis by (simp add: nth_append)
  qed
  with d1 d2 ts show ?case by simp
qed

lemma generate_transactions_outer_blocks:
  "generate_transactions_outer dates products sno w = Inr (ts, sno', w') \<Longrightarrow>
     \<exists>blocks. ts = concat blocks \<and>
       list_all2 (\<lambda>d block. (\<forall>t\<in>set block. t_date t = strftime_date d) \<and>
           (\<exists>base. 80 \<le> base \<and> base \<le> 120 \<and>
              int (length block) = py_int (of_int base * multiplier d)))
         dates blocks"
proof (induction dates arbitrary: sno w ts)
  case Nil
  then show ?case by simp
next
  case (Cons date dates)
  from Cons.prems obtain ts1 sno1 w1 ts2 where
    d: "generate_transactions_day date products sno w = Inr (ts1, sno1, w1)" and
    r: "generate_transactions_outer dates products sno1 w1 = Inr (ts2, sno', w')" and
    ts: "ts = ts1 @ ts2"
    by (auto split: sum.splits prod.splits)
  have stamp: "\<forall>t\<in>set ts1. t_date t = strftime_date date"
  proof (rule generate_transactions_day_all [of date products _, OF _ d])
    fix sno w t w'
    assume "generate_transactions_body date products sno w = Inr (t, w')"
    from generate_transactions_body_stamp [OF this] show "t_date t = strftime_date date"
      by blast
  qed
  obtain base w0 where base: "random_randint 80 120 w = (base, w0)"
    by (cases "random_randint 80 120 w")
  from random_randint_range [OF base] generate_transactions_day_count [OF d] base
  have count: "\<exists>base. 80 \<le> base \<and> base \<le> 120 \<and>
      int (length ts1) = py_int (of_int base * multiplier date)"
    by auto
  from Cons.IH [OF r] obtain blocks where
    "ts2 = concat blocks"
    "list_all2 (\<lambda>d block. (\<forall>t\<in>set block. t_date t = strftime_date d) \<and>
           (\<exists>base. 80 \<le> base \<and> base \<le> 120 \<and>
              int (length block) = py_int (of_int base * multiplier d)))
         dates blocks"
    by blast
  with stamp count ts show ?case
    by (intro exI [of _ "ts1 # blocks"]) simp
qed

lemma generate_transactions_outer_returns:
  "rows \<noteq> [] \<Longrightarrow>
     \<exists>ts sno' w'. generate_transactions_outer dates (Frame rows) sno w = Inr (ts, sno', w')"
proof (induction dates arbitrary: sno w)
  case Nil
  then show ?case by simp
next
  case (Cons date dates)
  from generate_transactions_day_returns [OF Cons.prems] obtain ts1 sno1 w1 where
    d: "generate_transactions_day date (Frame rows) sno w = Inr (ts1, sno1, w1)" by blast
  from Cons.IH [OF Cons.prems] obtain ts2 sno2 w2 where
    "generate_transactions_outer dates (Frame rows) sno1 w1 = Inr (ts2, sno2, w2)" by blast
  with d show ?case by simp
qed

lemma generate_transactions_outer_raises:
  assumes "\<And>date sno w. generate_transactions_body date products sno w = Inl err"
    and "dates \<noteq> []"
  shows "generate_transactions_outer dates products sno w = Inl err"
  using assms(2) generate_transactions_day_raises [of _ products err, OF assms(1)]
  by (cases dates) simp_all

lemma sno_upto:
  assumes "\<forall>j<length xs. f (xs ! j) = 1 + int j"
  shows "map f xs = [1..int (length xs)]"
proof (rule nth_equalityI)
  show "length (map f xs) = length [1..int (length xs)]" by simp
next
  fix j assume "j < length (map f xs)"
  with assms show "map f xs ! j = [1..int (length xs)] ! j" by simp
qed

lemma generate_transactions_outer_of:
  assumes "generate_transactions s e products w = Inr (ts, w')"
  shows "\<exists>sno'. generate_transactions_outer (fst (generate_dates s e)) products 1 w
           = Inr (ts, sno', w')"
  using assms
  by (auto simp: generate_transactions_def split: sum.splits option.splits prod.splits)

lemma generate_transactions_all:
  assumes body: "\<And>date sno w t w'.
     generate_transactions_body date products sno w = Inr (t, w') \<Longrightarrow> P date t"
    and run: "generate_transactions s e products w = Inr (ts, w')"
  shows "\<forall>t\<in>set ts. \<exists>date\<in>set (fst (generate_dates s e)). P date t"
proof -
  from generate_transactions_outer_of [OF run] obtain sno' where
    "generate_transactions_outer (fst (generate_dates s e)) products 1 w = Inr (ts, sno', w')"
    by blast
  from generate_transactions_outer_all [of products P, OF body this] show ?thesis .
qed

lemma generate_transactions_sno:
  assumes "generate_transactions s e products w = Inr (ts, w')"
  shows "80 * length (fst (generate_dates s e)) \<le> length ts \<and>
         (\<forall>j<length ts. t_sno (ts ! j) = 1 + int j)"
proof -
  from generate_transactions_outer_of [OF assms] obtain sno' where
    "generate_transactions_outer (fst (generate_dates s e)) products 1 w = Inr (ts, sno', w')"
    by blast
  from generate_transactions_outer_sno [OF this] show ?thesis by simp
qed

lemma generate_transactions_returns:
  assumes "rows \<noteq> []" "snd (generate_dates s e) = None"
  shows "\<exists>ts w'. generate_transactions s e (DataFrame rows) w = Inr (ts, w')"
proof -
  obtain dates where g: "generate_dates s e = (dates, None)"
    using assms(2) by (cases "generate_dates s e") auto
  from generate_transactions_outer_returns [OF assms(1), of dates 1 w] obtain ts sno' w' where
    "generate_transactions_outer dates (Frame rows) 1 w = Inr (ts, sno', w')" by blast
  with g assms(1) show ?thesis by (simp add: generate_transactions_def)
qed

lemma generate_transactions_single_day:
  assumes "generate_dates s e = ([d], r)"
    and "generate_transactions s e products w = Inr (ts, w')"
  shows "\<exists>sno'. generate_transactions_day d products 1 w = Inr (ts, sno', w')"
  using generate_transactions_outer_of [OF assms(2)] assms(1)
  by (auto split: sum.splits prod.splits)

lemma generate_transactions_first:
  assumes g: "generate_dates s e = (d # ds, r)"
    and base: "random_randint 80 120 w = (base, w1)"
    and body: "generate_transactions_body d products 1 w1 = Inr (t, w2)"
    and run: "generate_transactions s e products w = Inr (ts, w')"
  shows "ts \<noteq> [] \<and> hd ts = t"
proof -
  from generate_transactions_outer_of [OF run] g obtain ts1 sno1 wd ts2 where
    day: "generate_transactions_day d products 1 w = Inr (ts1, sno1, wd)" and ts: "ts = ts1 @ ts2"
    by (auto split: sum.splits prod.splits)
  from generate_transactions_day_inner [of w d products 1] base obtain k where
    "generate_transactions_day d products 1 w =
       generate_transactions_inner (Suc k) d products 1 w1"
    by (cases "nat (py_int (of_int base * multiplier d))") auto
  with day body have "\<exists>rest. ts1 = t # rest"
    by (auto split: sum.splits prod.splits)
  with ts show ?thesis by auto
qed

lemma count_on_business_day:
  assumes "weekday d < 6" "0 \<le> base"
  shows "py_int (of_int base * multiplier d) =
           (if weekday d = 5 then \<lfloor>(of_int base :: rat) * 13 / 10\<rfloor> else base)"
proof (cases "weekday d = 5")
  case True
  with assms(2) show ?thesis
    by (simp add: py_int_def multiplier_def is_weekend_def)
next
  case False
  with assms(1) show ?thesis
    by (simp add: py_int_def multiplier_def is_weekend_def)
qed

lemma generate_dates_monday:
  "generate_dates (mk_datetime 2024 9 2) (mk_datetime 2024 9 2) =
     ([\<lparr>ordinal = 739131, tod = 0\<rparr>], None)"
  by (simp add: generate_dates_def generate_dates_loop.simps calendar_defs Let_def)

lemma generate_dates_thursday:
  "generate_dates (mk_datetime 2024 1 25) (mk_datetime 2024 1 25) =
     ([\<lparr>ordinal = 738910, tod = 0\<rparr>], None)"
  by (simp add: generate_dates_def generate_dates_loop.simps calendar_defs Let_def)

lemma generate_dates_saturday:
  "generate_dates (mk_datetime 2024 1 27) (mk_datetime 2024 1 27) =
     ([\<lparr>ordinal = 738912, tod = 0\<rparr>], None)"
  by (simp add: generate_dates_def generate_dates_loop.simps calendar_defs Let_def)

lemma rounding_base:
  "random_randint 80 120 rounding_world =
     (82, sample_world\<lparr>random_state := 0 ## 2 ## 4 ## sconst 0\<rparr>)"
  by (simp add: rounding_world_def sample_world_def library_defs)

lemma rounding_catalog_frame: "DataFrame rounding_catalog = Frame rounding_catalog"
  by (simp add: rounding_catalog_def DataFrame_def)

text \<open>
  C10. Every date \<^verbatim>\<open>generate_dates\<close> yields has a weekday other than 6, so on those dates
  the test \<^verbatim>\<open>date.weekday() >= 5\<close> of \<^verbatim>\<open>generate_transactions\<close> holds exactly when the
  weekday is 5, and the multiplier is 1.3 exactly then and 1 otherwise. The multiplier
  reaches the output: the pass of the outer loop for a yielded date appends
  \<^verbatim>\<open>int(base_transactions * 1.3)\<close> transactions when the date is a Saturday and
  \<^verbatim>\<open>base_transactions\<close> otherwise, where \<^verbatim>\<open>base_transactions\<close> is the draw
  \<^verbatim>\<open>randint(80, 120)\<close> of that pass; and the transactions of a whole run are, in the order
  of the yielded dates, one block per date of that many records carrying the date. (For
  each base count from 80 to 120 the float product with 1.3 truncates to the integer part
  of the exact product.)
\<close>

theorem weekend_multiplier_on_saturdays:
  "(\<forall>d\<in>set (fst (generate_dates s e)).
      weekday d \<noteq> 6 \<and>
      is_weekend d = (weekday d = 5) \<and>
      (multiplier d = 13 / 10) = (weekday d = 5) \<and>
      (multiplier d = 1) = (weekday d \<noteq> 5) \<and>
      (\<forall>products sno w ts sno' w'.
          generate_transactions_day d products sno w = Inr (ts, sno', w') \<longrightarrow>
          int (length ts) =
            (if weekday d = 5
             then \<lfloor>(of_int (fst (random_randint 80 120 w)) :: rat) * 13 / 10\<rfloor>
             else fst (random_randint 80 120 w)))) \<and>
   (\<forall>products w ts w'.
      generate_transactions s e products w = Inr (ts, w') \<longrightarrow>
      (\<exists>blocks. ts = concat blocks \<and>
         list_all2 (\<lambda>d block. (\<forall>t\<in>set block. t_date t = strftime_date d) \<and>
             (\<exists>base. 80 \<le> base \<and> base \<le> 120 \<and>
                int (length block) =
                  (if weekday d = 5 then \<lfloor>(of_int base :: rat) * 13 / 10\<rfloor> else base)))
           (fst (generate_dates s e)) blocks))"
proof (intro conjI ballI allI impI)
  fix d assume d: "d \<in> set (fst (generate_dates s e))"
  from generate_dates_members [OF d] have wd: "weekday d < 6" by simp
  then show "weekday d \<noteq> 6" "is_weekend d = (weekday d = 5)"
    "(multiplier d = 13 / 10) = (weekday d = 5)" "(multiplier d = 1) = (weekday d \<noteq> 5)"
    by (auto simp: is_weekend_def multiplier_def)
  fix products sno w ts sno' w'
  assume day: "generate_transactions_day d products sno w = Inr (ts, sno', w')"
  obtain base w1 where base: "random_randint 80 120 w = (base, w1)"
    by (cases "random_randint 80 120 w")
  from random_randint_range [OF base] have "0 \<le> base" by simp
  from generate_transactions_day_count [OF day] count_on_business_day [OF wd this] base
  show "int (length ts) =
            (if weekday d = 5
             then \<lfloor>(of_int (fst (random_randint 80 120 w)) :: rat) * 13 / 10\<rfloor>
             else fst (random_randint 80 120 w))"
    by simp
next
  fix products w ts w'
  assume run: "generate_transactions s e products w = Inr (ts, w')"
  from generate_transactions_outer_of [OF run] obtain sno' where
    "generate_transactions_outer (fst (generate_dates s e)) products 1 w = Inr (ts, sno', w')"
    by blast
  from generate_transactions_outer_blocks [OF this] obtain blocks where
    ts: "ts = concat blocks" and
    blocks: "list_all2 (\<lambda>d block. (\<forall>t\<in>set block. t_date t = strftime_date d) \<and>
           (\<exists>base. 80 \<le> base \<and> base \<le> 120 \<and>
              int (length block) = py_int (of_int base * multiplier d)))
         (fst (generate_dates s e)) blocks"
    by blast
  have "list_all2 (\<lambda>d block. (\<forall>t\<in>set block. t_date t = strftime_date d) \<and>
             (\<exists>base. 80 \<le> base \<and> base \<le> 120 \<and>
                int (length block) =
                  (if weekday d = 5 then \<lfloor>(of_int base :: rat) * 13 / 10\<rfloor> else base)))
           (fst (generate_dates s e)) blocks"
  proof (rule list.rel_mono_strong [OF blocks])
    fix d block
    assume d: "d \<in> set (fst (generate_dates s e))"
      and b: "(\<forall>t\<in>set block. t_date t = strftime_date d) \<and>
           (\<exists>base. 80 \<le> base \<and> base \<le> 120 \<and>
              int (length block) = py_int (of_int base * multiplier d))"
    from generate_dates_members [OF d] have wd: "weekday d < 6" by simp
    from b obtain base where base: "80 \<le> base" "base \<le> 120"
      "int (length block) = py_int (of_int base * multiplier d)" by blast
    from base(1) have "0 \<le> base" by simp
    from count_on_business_day [OF wd this] base b
    show "(\<forall>t\<in>set block. t_date t = strftime_date d) \<and>
             (\<exists>base. 80 \<le> base \<and> base \<le> 120 \<and>
                int (length block) =
                  (if weekday d = 5 then \<lfloor>(of_int base :: rat) * 13 / 10\<rfloor> else base))"
      by auto
  qed
  with ts show "\<exists>blocks. ts = concat blocks \<and>
         list_all2 (\<lambda>d block. (\<forall>t\<in>set block. t_date t = strftime_date d) \<and>
             (\<exists>base. 80 \<le> base \<and> base \<le> 120 \<and>
                int (length block) =
                  (if weekday d = 5 then \<lfloor>(of_int base :: rat) * 13 / 10\<rfloor> else base)))
           (fst (generate_dates s e)) blocks"
    by blast
qed

theorem weekend_multiplier_on_saturdays_witness:
  "fst (generate_dates (mk_datetime 2024 1 27) (mk_datetime 2024 1 27)) =
     [\<lparr>ordinal = 738912, tod = 0\<rparr>] \<and>
   weekday \<lparr>ordinal = 738912, tod = 0\<rparr> = 5 \<and>
   is_weekend \<lparr>ordinal = 738912, tod = 0\<rparr> \<and>
   multiplier \<lparr>ordinal = 738912, tod = 0\<rparr> = 13 / 10 \<and>
   fst (random_randint 80 120 rounding_world) = 82 \<and>
   \<not> isl (generate_transactions (mk_datetime 2024 1 27) (mk_datetime 2024 1 27)
            (DataFrame rounding_catalog) rounding_world) \<and>
   length (fst (projr (generate_transactions (mk_datetime 2024 1 27) (mk_datetime 2024 1 27)
            (DataFrame rounding_catalog) rounding_world))) = 106 \<and>
   fst (generate_dates (mk_datetime 2024 1 25) (mk_datetime 2024 1 25)) =
     [\<lparr>ordinal = 738910, tod = 0\<rparr>] \<and>
   weekday \<lparr>ordinal = 738910, tod = 0\<rparr> = 3 \<and>
   \<not> is_weekend \<lparr>ordinal = 738910, tod = 0\<rparr> \<and>
   multiplier \<lparr>ordinal = 738910, tod = 0\<rparr> = 1 \<and>
   \<not> isl (generate_transactions (mk_datetime 2024 1 25) (mk_datetime 2024 1 25)
            (DataFrame rounding_catalog) rounding_world) \<and>
   length (fst (projr (generate_transactions (mk_datetime 2024 1 25) (mk_datetime 2024 1 25)
            (DataFrame rounding_catalog) rounding_world))) = 82"
proof -
  have rows: "rounding_catalog \<noteq> []" by (simp add: rounding_catalog_def)
  have wd: "weekday \<lparr>ordinal = 738912, tod = 0\<rparr> = 5" "weekday \<lparr>ordinal = 738910, tod = 0\<rparr> = 3"
    by (simp_all add: weekday_def)
  have base: "fst (random_randint 80 120 rounding_world) = 82"
    by (simp add: rounding_base)
  have sat_in: "\<lparr>ordinal = 738912, tod = 0\<rparr>
      \<in> set (fst (generate_dates (mk_datetime 2024 1 27) (mk_datetime 2024 1 27)))"
    and thu_in: "\<lparr>ordinal = 738910, tod = 0\<rparr>
      \<in> set (fst (generate_dates (mk_datetime 2024 1 25) (mk_datetime 2024 1 25)))"
    by (simp_all add: generate_dates_saturday generate_dates_thursday)
  note sat = weekend_multiplier_on_saturdays
    [of "mk_datetime 2024 1 27" "mk_datetime 2024 1 27", THEN conjunct1, rule_format, OF sat_in]
  note thu = weekend_multiplier_on_saturdays
    [of "mk_datetime 2024 1 25" "mk_datetime 2024 1 25", THEN conjunct1, rule_format, OF thu_in]
  from generate_transactions_returns [OF rows, of "mk_datetime 2024 1 27" "mk_datetime 2024 1 27"
    rounding_world]
  obtain ts1 w1 where run1: "generate_transactions (mk_datetime 2024 1 27) (mk_datetime 2024 1 27)
            (DataFrame rounding_catalog) rounding_world = Inr (ts1, w1)"
    by (auto simp: generate_dates_saturday)
  from generate_transactions_single_day [OF generate_dates_saturday run1] obtain sno1 where
    day1: "generate_transactions_day \<lparr>ordinal = 738912, tod = 0\<rparr> (DataFrame rounding_catalog) 1
       rounding_world = Inr (ts1, sno1, w1)" by blast
  from sat have "int (length ts1) =
      (if weekday \<lparr>ordinal = 738912, tod = 0\<rparr> = 5
       then \<lfloor>(of_int (fst (random_randint 80 120 rounding_world)) :: rat) * 13 / 10\<rfloor>
       else fst (random_randint 80 120 rounding_world))"
    using day1 by blast
  with wd base have len1: "length ts1 = 106" by simp
  from generate_transactions_returns [OF rows, of "mk_datetime 2024 1 25" "mk_datetime 2024 1 25"
    rounding_world]
  obtain ts2 w2 where run2: "generate_transactions (mk_datetime 2024 1 25) (mk_datetime 2024 1 25)
            (DataFrame rounding_catalog) rounding_world = Inr (ts2, w2)"
    by (auto simp: generate_dates_thursday)
  from generate_transactions_single_day [OF generate_dates_thursday run2] obtain sno2 where
    day2: "generate_transactions_day \<lparr>ordinal = 738910, tod = 0\<rparr> (DataFrame rounding_catalog) 1
       rounding_world = Inr (ts2, sno2, w2)" by blast
  from thu have "int (length ts2) =
      (if weekday \<lparr>ordinal = 738910, tod = 0\<rparr> = 5
       then \<lfloor>(of_int (fst (random_randint 80 120 rounding_world)) :: rat) * 13 / 10\<rfloor>
       else fst (random_randint 80 120 rounding_world))"
    using day2 by blast
  with wd base have len2: "length ts2 = 82" by simp
  from sat thu wd have
    "is_weekend \<lparr>ordinal = 738912, tod = 0\<rparr>" "multiplier \<lparr>ordinal = 738912, tod = 0\<rparr> = 13 / 10"
    "\<not> is_weekend \<lparr>ordinal = 738910, tod = 0\<rparr>" "multiplier \<lparr>ordinal = 738910, tod = 0\<rparr> = 1"
    by simp_all
  with wd base len1 len2 show ?thesis
    by (simp add: run1 run2 generate_dates_saturday generate_dates_thursday)
qed

lemma generate_products_prices:
  assumes "generate_products n w0 = Inr (rows, w1)"
  shows "\<forall>p\<in>set rows. 10 \<le> p_mrp p \<and> of_int \<lfloor>p_mrp p * 100\<rfloor> = p_mrp p * 100"
proof -
  from assms have "generate_products_loop (nat n) 0 w0 = Inr (rows, w1)"
    by (simp add: generate_products_def)
  from generate_products_loop_result [OF this] show ?thesis by blast
qed

lemma abs_diff_via:
  fixes a b c :: rat
  shows "\<bar>a - c\<bar> \<le> u \<Longrightarrow> \<bar>b - c\<bar> \<le> v \<Longrightarrow> \<bar>a - b\<bar> \<le> v + u"
  by linarith

lemma py_round_product_error:
  assumes "0 \<le> q"
  shows "\<bar>py_round (x * q) 2 - py_round x 2 * q\<bar> \<le> (q + 1) / 200"
proof -
  have "\<bar>py_round x 2 * q - x * q\<bar> = \<bar>py_round x 2 - x\<bar> * q"
    using assms by (simp add: abs_mult flip: left_diff_distrib)
  also have "\<dots> \<le> 1 / 200 * q"
    using py_round_error [of x] assms by (rule mult_right_mono)
  finally have "\<bar>py_round x 2 * q - x * q\<bar> \<le> q / 200" by simp
  from abs_diff_via [OF py_round_error [of "x * q"] this] show ?thesis
    by (simp add: add_divide_distrib)
qed

lemma py_round_fixed:
  assumes "of_int \<lfloor>x * 100\<rfloor> = x * 100"
  shows "py_round x 2 = x"
proof -
  from assms have "x = of_int \<lfloor>x * 100\<rfloor> / 100" by linarith
  then show ?thesis
    using py_round_hundredths [of "\<lfloor>x * 100\<rfloor>"] by simp
qed

lemma discounted_price_below:
  assumes mrp: "10 \<le> mrp" and d: "discount \<in> {5 / 100, 1 / 10}"
  shows "py_round (mrp * (1 - discount)) 2 < mrp"
proof -
  from d have "1 / 20 \<le> discount" by auto
  with mrp have "10 * (1 / 20) \<le> mrp * discount"
    by (intro mult_mono) simp_all
  then have "mrp * (1 - discount) \<le> mrp - 1 / 2" by (simp add: algebra_simps)
  with py_round_error [of "mrp * (1 - discount)"] show ?thesis by linarith
qed

lemma generate_transactions_body_amounts:
  assumes body: "generate_transactions_body date (Frame rows) sno w = Inr (t, w')"
    and prices: "\<forall>p\<in>set rows. 10 \<le> p_mrp p \<and> of_int \<lfloor>p_mrp p * 100\<rfloor> = p_mrp p * 100"
  shows "1 \<le> t_quantity t \<and> t_quantity t \<le> 5 \<and>
         \<bar>t_total_amount t - t_unit_price t * of_int (t_quantity t)\<bar>
           \<le> (of_int (t_quantity t) + 1) / 200 \<and>
         (\<exists>p. find (\<lambda>p. p_product_name p = t_product_name t) rows = Some p \<and>
              t_unit_price t \<le> p_mrp p \<and>
              (t_unit_price t = p_mrp p \<longrightarrow>
                 t_total_amount t = t_unit_price t * of_int (t_quantity t) \<and>
                 t_total_amount t = py_round (t_unit_price t * of_int (t_quantity t)) 2))"
proof -
  from generate_transactions_body_result [OF body] obtain p discount where
    q: "1 \<le> t_quantity t" "t_quantity t \<le> 5" and
    f: "find (\<lambda>p. p_product_name p = t_product_name t) rows = Some p" and
    d: "discount \<in> {0, 5 / 100, 1 / 10}" and
    u: "t_unit_price t = py_round (p_mrp p * (1 - discount)) 2" and
    a: "t_total_amount t = py_round (p_mrp p * of_int (t_quantity t) * (1 - discount)) 2"
    by blast
  have swap: "p_mrp p * of_int (t_quantity t) * (1 - discount) =
      p_mrp p * (1 - discount) * of_int (t_quantity t)" by simp
  from q have "(0 :: rat) \<le> of_int (t_quantity t)" by simp
  from py_round_product_error [OF this, of "p_mrp p * (1 - discount)"]
  have bound: "\<bar>t_total_amount t - t_unit_price t * of_int (t_quantity t)\<bar>
      \<le> (of_int (t_quantity t) + 1) / 200"
    unfolding u a swap .
  from f have "p \<in> set rows"
    by (auto simp: find_Some_iff)
  with prices have mrp: "10 \<le> p_mrp p" and two: "of_int \<lfloor>p_mrp p * 100\<rfloor> = p_mrp p * 100"
    by blast+
  have fixed: "py_round (p_mrp p) 2 = p_mrp p"
    by (rule py_round_fixed [OF two])
  have "of_int \<lfloor>p_mrp p * of_int (t_quantity t) * 100\<rfloor> = p_mrp p * of_int (t_quantity t) * 100"
  proof -
    have "p_mrp p * of_int (t_quantity t) * 100 = p_mrp p * 100 * of_int (t_quantity t)"
      by simp
    also have "\<dots> = of_int \<lfloor>p_mrp p * 100\<rfloor> * of_int (t_quantity t)"
      by (simp only: two)
    also have "\<dots> = of_int (\<lfloor>p_mrp p * 100\<rfloor> * t_quantity t)"
      by simp
    finally show ?thesis by (simp only: floor_of_int)
  qed
  then have fixed_total: "py_round (p_mrp p * of_int (t_quantity t)) 2 = p_mrp p * of_int (t_quantity t)"
    by (rule py_round_fixed)
  have le: "t_unit_price t \<le> p_mrp p"
  proof (cases "discount = 0")
    case True
    with u fixed show ?thesis by simp
  next
    case False
    with d have "discount \<in> {5 / 100, 1 / 10}" by auto
    from discounted_price_below [OF mrp this] u show ?thesis by simp
  qed
  have same: "t_total_amount t = t_unit_price t * of_int (t_quantity t) \<and>
      t_total_amount t = py_round (t_unit_price t * of_int (t_quantity t)) 2"
    if eq: "t_unit_price t = p_mrp p"
  proof -
    have "discount = 0"
    proof (rule ccontr)
      assume "discount \<noteq> 0"
      with d have "discount \<in> {5 / 100, 1 / 10}" by auto
      from discounted_price_below [OF mrp this] u eq show False by simp
    qed
    with a fixed_total eq show ?thesis by simp
  qed
  from q bound f le same show ?thesis by blast
qed

lemma generate_transactions_amounts:
  assumes prices: "\<forall>p\<in>set rows. 10 \<le> p_mrp p \<and> of_int \<lfloor>p_mrp p * 100\<rfloor> = p_mrp p * 100"
    and run: "generate_transactions s e (DataFrame rows) w = Inr (ts, w')"
  shows "\<forall>t\<in>set ts.
           1 \<le> t_quantity t \<and> t_quantity t \<le> 5 \<and>
           \<bar>t_total_amount t - t_unit_price t * of_int (t_quantity t)\<bar>
             \<le> (of_int (t_quantity t) + 1) / 200 \<and>
           (\<exists>p. find (\<lambda>p. p_product_name p = t_product_name t) rows = Some p \<and>
                t_unit_price t \<le> p_mrp p \<and>
                (t_unit_price t = p_mrp p \<longrightarrow>
                   t_total_amount t = t_unit_price t * of_int (t_quantity t) \<and>
                   t_total_amount t = py_round (t_unit_price t * of_int (t_quantity t)) 2))"
    (is "\<forall>t\<in>set ts. ?amounts t")
proof
  fix t assume "t \<in> set ts"
  moreover have "\<forall>t\<in>set ts. \<exists>date\<in>set (fst (generate_dates s e)). ?amounts t"
  proof (rule generate_transactions_all [of "DataFrame rows" "\<lambda>date. ?amounts", OF _ run])
    fix date sno w t w'
    assume "generate_transactions_body date (DataFrame rows) sno w = Inr (t, w')"
    from generate_transactions_body_amounts [OF generate_transactions_body_DataFrame [OF this] prices]
    show "?amounts t" .
  qed
  ultimately obtain date where "?amounts t" by blast
  then show "?amounts t" .
qed

lemma rounding_body:
  "generate_transactions_body \<lparr>ordinal = 739131, tod = 0\<rparr> (DataFrame rounding_catalog) 1
     (sample_world\<lparr>random_state := 0 ## 2 ## 4 ## sconst 0\<rparr>) =
     Inr (\<lparr>t_sno = 1, t_date = ''02-09-2024'', t_time = ''08:20'',
           t_product_name = ''Tata Salt'', t_quantity = 3,
           t_unit_price = 903 / 100, t_total_amount = 2708 / 100,
           t_payment_mode = ''Cash'', t_transaction_type = ''Walk-in''\<rparr>,
          sample_world\<lparr>random_state := sconst 0,
            time_objects := siterate (\<lambda>t. t + 4321) 34321\<rparr>)"
  by (simp add: generate_transactions_body_def rounding_catalog_def sample_world_def
        library_defs sample_days_formatted two_digits_def
        digit_def Let_def)

lemma rounding_run:
  "\<not> isl (generate_transactions (mk_datetime 2024 9 2) (mk_datetime 2024 9 2)
            (DataFrame rounding_catalog) rounding_world) \<and>
   fst (projr (generate_transactions (mk_datetime 2024 9 2) (mk_datetime 2024 9 2)
            (DataFrame rounding_catalog) rounding_world)) \<noteq> [] \<and>
   hd (fst (projr (generate_transactions (mk_datetime 2024 9 2) (mk_datetime 2024 9 2)
            (DataFrame rounding_catalog) rounding_world))) =
     \<lparr>t_sno = 1, t_date = ''02-09-2024'', t_time = ''08:20'',
      t_product_name = ''Tata Salt'', t_quantity = 3,
      t_unit_price = 903 / 100, t_total_amount = 2708 / 100,
      t_payment_mode = ''Cash'', t_transaction_type = ''Walk-in''\<rparr>"
proof -
  have "rounding_catalog \<noteq> []" by (simp add: rounding_catalog_def)
  from generate_transactions_returns [OF this, of "mk_datetime 2024 9 2" "mk_datetime 2024 9 2"
    rounding_world]
  obtain ts w' where run: "generate_transactions (mk_datetime 2024 9 2) (mk_datetime 2024 9 2)
            (DataFrame rounding_catalog) rounding_world = Inr (ts, w')"
    by (auto simp: generate_dates_monday)
  from generate_transactions_first [OF generate_dates_monday rounding_base rounding_body run]
  show ?thesis by (simp add: run)
qed

text \<open>
  C2, as the code has it. \<^verbatim>\<open>total_amount\<close> is rounded on its own from the unrounded
  discounted price times the quantity, not from the rounded \<^verbatim>\<open>unit_price\<close>. On a catalog
  made by \<^verbatim>\<open>generate_products\<close>, every transaction has a quantity from 1 to 5 and a
  \<^verbatim>\<open>total_amount\<close> within \<open>0.005 * (quantity + 1)\<close> of \<^verbatim>\<open>unit_price * quantity\<close>; when the
  \<^verbatim>\<open>unit_price\<close> is the MRP of the first catalog entry with the transaction's product name
  (no discount was drawn), \<^verbatim>\<open>total_amount\<close> is \<^verbatim>\<open>unit_price * quantity\<close> itself, which is
  \<^verbatim>\<open>round(unit_price * quantity, 2)\<close>. With a discount it need not be: from the catalog
  entry with MRP 10.03, the discount 0.1 and the quantity 3 give the unit price 9.03 and
  the total 27.08, while \<^verbatim>\<open>round(9.03 * 3, 2)\<close> is 27.09.
\<close>

theorem total_amount_near_unit_price_times_quantity:
  assumes "generate_products n w0 = Inr (rows, w1)"
    and "generate_transactions s e (DataFrame rows) w = Inr (ts, w')"
  shows "\<forall>t\<in>set ts.
           1 \<le> t_quantity t \<and> t_quantity t \<le> 5 \<and>
           \<bar>t_total_amount t - t_unit_price t * of_int (t_quantity t)\<bar>
             \<le> (of_int (t_quantity t) + 1) / 200 \<and>
           (\<exists>p. find (\<lambda>p. p_product_name p = t_product_name t) rows = Some p \<and>
                (t_unit_price t = p_mrp p \<longrightarrow>
                   t_total_amount t = t_unit_price t * of_int (t_quantity t) \<and>
                   t_total_amount t = py_round (t_unit_price t * of_int (t_quantity t)) 2))"
  using generate_transactions_amounts [OF generate_products_prices [OF assms(1)] assms(2)]
  by blast

theorem total_amount_counterexample:
  "generate_products 1 rounding_start_world = Inr (rounding_catalog, rounding_world) \<and>
   \<not> isl (generate_transactions (mk_datetime 2024 9 2) (mk_datetime 2024 9 2)
            (DataFrame rounding_catalog) rounding_world) \<and>
   fst (projr (generate_transactions (mk_datetime 2024 9 2) (mk_datetime 2024 9 2)
            (DataFrame rounding_catalog) rounding_world)) \<noteq> [] \<and>
   t_unit_price (hd (fst (projr (generate_transactions (mk_datetime 2024 9 2)
            (mk_datetime 2024 9 2) (DataFrame rounding_catalog) rounding_world)))) = 903 / 100 \<and>
   t_quantity (hd (fst (projr (generate_transactions (mk_datetime 2024 9 2)
            (mk_datetime 2024 9 2) (DataFrame rounding_catalog) rounding_world)))) = 3 \<and>
   t_total_amount (hd (fst (projr (generate_transactions (mk_datetime 2024 9 2)
            (mk_datetime 2024 9 2) (DataFrame rounding_catalog) rounding_world)))) = 2708 / 100 \<and>
   py_round (903 / 100 * of_int 3) 2 = 2709 / 100 \<and>
   t_total_amount (hd (fst (projr (generate_transactions (mk_datetime 2024 9 2)
            (mk_datetime 2024 9 2) (DataFrame rounding_catalog) rounding_world)))) \<noteq>
     py_round
       (t_unit_price (hd (fst (projr (generate_transactions (mk_datetime 2024 9 2)
            (mk_datetime 2024 9 2) (DataFrame rounding_catalog) rounding_world)))) *
        of_int (t_quantity (hd (fst (projr (generate_transactions (mk_datetime 2024 9 2)
            (mk_datetime 2024 9 2) (DataFrame rounding_catalog) rounding_world)))))) 2"
proof -
  have "py_round (903 / 100 * of_int 3) 2 = 2709 / 100"
    by (simp add: py_round_def round_half_even_def Let_def)
  with rounding_run generate_products_rounding_catalog show ?thesis by simp
qed

theorem total_amount_near_unit_price_times_quantity_witness:
  "generate_products 1 rounding_start_world = Inr (rounding_catalog, rounding_world) \<and>
   \<not> isl (generate_transactions (mk_datetime 2024 9 2) (mk_datetime 2024 9 2)
            (DataFrame rounding_catalog) rounding_world) \<and>
   hd (fst (projr (generate_transactions (mk_datetime 2024 9 2) (mk_datetime 2024 9 2)
            (DataFrame rounding_catalog) rounding_world))) =
     \<lparr>t_sno = 1, t_date = ''02-09-2024'', t_time = ''08:20'',
      t_product_name = ''Tata Salt'', t_quantity = 3,
      t_unit_price = 903 / 100, t_total_amount = 2708 / 100,
      t_payment_mode = ''Cash'', t_transaction_type = ''Walk-in''\<rparr> \<and>
   list_all (\<lambda>t.
           1 \<le> t_quantity t \<and> t_quantity t \<le> 5 \<and>
           \<bar>t_total_amount t - t_unit_price t * of_int (t_quantity t)\<bar>
             \<le> (of_int (t_quantity t) + 1) / 200 \<and>
           (\<exists>p. find (\<lambda>p. p_product_name p = t_product_name t) rounding_catalog = Some p \<and>
                (t_unit_price t = p_mrp p \<longrightarrow>
                   t_total_amount t = t_unit_price t * of_int (t_quantity t) \<and>
                   t_total_amount t = py_round (t_unit_price t * of_int (t_quantity t)) 2)))
     (fst (projr (generate_transactions (mk_datetime 2024 9 2) (mk_datetime 2024 9 2)
            (DataFrame rounding_catalog) rounding_world)))"
proof -
  from rounding_run obtain ts w' where
    run: "generate_transactions (mk_datetime 2024 9 2) (mk_datetime 2024 9 2)
            (DataFrame rounding_catalog) rounding_world = Inr (ts, w')"
    by (cases "generate_transactions (mk_datetime 2024 9 2) (mk_datetime 2024 9 2)
            (DataFrame rounding_catalog) rounding_world") auto
  from total_amount_near_unit_price_times_quantity [OF generate_products_rounding_catalog run]
    rounding_run generate_products_rounding_catalog
  show ?thesis
    unfolding list_all_iff run by simp
qed

text \<open>
  C5. On a catalog made by \<^verbatim>\<open>generate_products\<close>, every transaction's \<^verbatim>\<open>unit_price\<close> is at
  most the MRP of the first catalog entry whose name is the transaction's product name.
\<close>

theorem unit_price_at_most_mrp:
  assumes "generate_products n w0 = Inr (rows, w1)"
    and "generate_transactions s e (DataFrame rows) w = Inr (ts, w')"
  shows "\<forall>t\<in>set ts. \<exists>p. find (\<lambda>p. p_product_name p = t_product_name t) rows = Some p \<and>
                          t_unit_price t \<le> p_mrp p"
  using generate_transactions_amounts [OF generate_products_prices [OF assms(1)] assms(2)]
  by blast

lemma pipeline_base:
  "random_randint 80 120 pipeline_world =
     (115, sample_world\<lparr>random_state :=
             siterate (\<lambda>r. r + 3141592653589793) 37275801017946768\<rparr>)"
  by (simp add: pipeline_world_def sample_world_def library_defs)

lemma pipeline_body:
  "generate_transactions_body \<lparr>ordinal = 739131, tod = 0\<rparr> (DataFrame sample_catalog) 1
     (sample_world\<lparr>random_state := siterate (\<lambda>r. r + 3141592653589793) 37275801017946768\<rparr>) =
     Inr (\<lparr>t_sno = 1, t_date = ''02-09-2024'', t_time = ''08:20'',
           t_product_name = ''Tata Salt'', t_quantity = 2,
           t_unit_price = 44972 / 100, t_total_amount = 89944 / 100,
           t_payment_mode = ''Cash'', t_transaction_type = ''Walk-in''\<rparr>,
          sample_world\<lparr>random_state :=
              siterate (\<lambda>r. r + 3141592653589793) 52983764285895733,
            time_objects := siterate (\<lambda>t. t + 4321) 34321\<rparr>)"
  by (simp add: generate_transactions_body_def sample_catalog_def sample_world_def
        library_defs sample_days_formatted two_digits_def
        digit_def Let_def)

lemma pipeline_run:
  "\<not> isl (generate_transactions (mk_datetime 2024 9 2) (mk_datetime 2024 9 2)
            (DataFrame sample_catalog) pipeline_world) \<and>
   fst (projr (generate_transactions (mk_datetime 2024 9 2) (mk_datetime 2024 9 2)
            (DataFrame sample_catalog) pipeline_world)) \<noteq> [] \<and>
   hd (fst (projr (generate_transactions (mk_datetime 2024 9 2) (mk_datetime 2024 9 2)
            (DataFrame sample_catalog) pipeline_world))) =
     \<lparr>t_sno = 1, t_date = ''02-09-2024'', t_time = ''08:20'',
      t_product_name = ''Tata Salt'', t_quantity = 2,
      t_unit_price = 44972 / 100, t_total_amount = 89944 / 100,
      t_payment_mode = ''Cash'', t_transaction_type = ''Walk-in''\<rparr>"
proof -
  have "sample_catalog \<noteq> []" by (simp add: sample_catalog_def)
  from generate_transactions_returns [OF this, of "mk_datetime 2024 9 2" "mk_datetime 2024 9 2"
    pipeline_world]
  obtain ts w' where run: "generate_transactions (mk_datetime 2024 9 2) (mk_datetime 2024 9 2)
            (DataFrame sample_catalog) pipeline_world = Inr (ts, w')"
    by (auto simp: generate_dates_monday)
  from generate_transactions_first [OF generate_dates_monday pipeline_base pipeline_body run]
  show ?thesis by (simp add: run)
qed

theorem unit_price_at_most_mrp_witness:
  "generate_products 2 sample_world = Inr (sample_catalog, pipeline_world) \<and>
   \<not> isl (generate_transactions (mk_datetime 2024 9 2) (mk_datetime 2024 9 2)
            (DataFrame sample_catalog) pipeline_world) \<and>
   hd (fst (projr (generate_transactions (mk_datetime 2024 9 2) (mk_datetime 2024 9 2)
            (DataFrame sample_catalog) pipeline_world))) =
     \<lparr>t_sno = 1, t_date = ''02-09-2024'', t_time = ''08:20'',
      t_product_name = ''Tata Salt'', t_quantity = 2,
      t_unit_price = 44972 / 100, t_total_amount = 89944 / 100,
      t_payment_mode = ''Cash'', t_transaction_type = ''Walk-in''\<rparr> \<and>
   find (\<lambda>p. p_product_name p = ''Tata Salt'') sample_catalog = Some (hd sample_catalog) \<and>
   p_mrp (hd sample_catalog) = 49969 / 100 \<and>
   list_all (\<lambda>t. \<exists>p. find (\<lambda>p. p_product_name p = t_product_name t) sample_catalog = Some p \<and>
                     t_unit_price t \<le> p_mrp p)
     (fst (projr (generate_transactions (mk_datetime 2024 9 2) (mk_datetime 2024 9 2)
            (DataFrame sample_catalog) pipeline_world)))"
proof -
  from pipeline_run obtain ts w' where
    run: "generate_transactions (mk_datetime 2024 9 2) (mk_datetime 2024 9 2)
            (DataFrame sample_catalog) pipeline_world = Inr (ts, w')"
    by (cases "generate_transactions (mk_datetime 2024 9 2) (mk_datetime 2024 9 2)
            (DataFrame sample_catalog) pipeline_world") auto
  have entry: "find (\<lambda>p. p_product_name p = ''Tata Salt'') sample_catalog = Some (hd sample_catalog)"
    "p_mrp (hd sample_catalog) = 49969 / 100"
    by (simp_all add: sample_catalog_def)
  from unit_price_at_most_mrp [OF generate_products_sample_catalog run]
  have "list_all (\<lambda>t. \<exists>p. find (\<lambda>p. p_product_name p = t_product_name t) sample_catalog = Some p \<and>
                     t_unit_price t \<le> p_mrp p) ts"
    unfolding list_all_iff .
  with entry pipeline_run generate_products_sample_catalog show ?thesis
    by (simp add: run)
qed

lemma last_day_is_yielded:
  assumes "ordinal c = MAXORDINAL"
  shows "weekday c < 6 \<and> c \<notin> set holidays"
  using assms by (auto simp: calendar_defs)

lemma generate_dates_loop_quiet:
  "1 \<le> ordinal c \<Longrightarrow> ordinal c \<le> MAXORDINAL \<Longrightarrow>
   fst (generate_dates_loop c e) = [] \<Longrightarrow> snd (generate_dates_loop c e) = None"
proof (induction c e rule: generate_dates_loop.induct)
  case (1 c e)
  show ?case
  proof (cases "dt_le c e")
    case False
    then show ?thesis by (simp add: generate_dates_loop.simps [of c e])
  next
    case le: True
    show ?thesis
    proof (cases "add_days c 1")
      case (Inl err)
      with "1.prems"(1,2) have "ordinal c = MAXORDINAL"
        by (auto simp: add_days_def split: if_splits)
      from last_day_is_yielded [OF this] le Inl "1.prems"(3) show ?thesis
        by (simp add: generate_dates_loop.simps [of c e])
    next
      case (Inr n)
      then have n: "1 \<le> ordinal n" "ordinal n \<le> MAXORDINAL"
        using "1.prems"(1) by (auto simp: add_days_def split: if_splits)
      obtain ds r where rest: "generate_dates_loop n e = (ds, r)"
        by (cases "generate_dates_loop n e")
      with le Inr "1.prems"(3) have "ds = []"
        by (simp add: generate_dates_loop.simps [of c e] split: if_splits)
      with "1.IH" [OF le refl Inr n] rest have "r = None" by simp
      with le Inr rest show ?thesis
        by (simp add: generate_dates_loop.simps [of c e])
    qed
  qed
qed

lemma generate_transactions_raises:
  assumes "\<And>date sno w. generate_transactions_body date products sno w = Inl err"
    and "fst (generate_dates s e) \<noteq> []"
  shows "generate_transactions s e products w = Inl err"
  using generate_transactions_outer_raises [OF assms(1), of "fst (generate_dates s e)" 1 w] assms(2)
  by (auto simp: generate_transactions_def split: prod.splits)

lemma generate_transactions_no_dates:
  assumes "valid_datetime s" "fst (generate_dates s e) = []"
  shows "generate_transactions s e products w = Inr ([], w)"
proof -
  from assms have "snd (generate_dates s e) = None"
    unfolding generate_dates_def using generate_dates_loop_quiet [of s e]
    by (simp add: valid_datetime_def)
  with assms(2) show ?thesis
    by (auto simp: generate_transactions_def split: prod.splits)
qed

text \<open>
  C8. The empty catalog is the frame \<^verbatim>\<open>generate_products(0)\<close> returns,
  \<^verbatim>\<open>pd.DataFrame([])\<close>, which has no columns; a frame with the catalog's columns and no rows
  is empty as well. Given either, \<^verbatim>\<open>generate_transactions\<close> raises as soon as the date
  range has a business day, in the first pass of the inner loop: on the frame without
  columns \<^verbatim>\<open>products['product_name']\<close> raises \<^verbatim>\<open>KeyError\<close>, on the frame without rows
  \<^verbatim>\<open>random.choice\<close> raises \<^verbatim>\<open>IndexError\<close> on the empty list of names. When the range has no
  business day it returns the empty result, the random sources untouched.
\<close>

theorem empty_catalog_raises:
  "generate_products 0 w0 = Inr ([], w0) \<and>
   DataFrame [] = Frame_without_columns \<and>
   (fst (generate_dates s e) \<noteq> [] \<longrightarrow>
      generate_transactions s e (DataFrame []) w = Inl KeyError \<and>
      generate_transactions s e (Frame []) w = Inl IndexError) \<and>
   (valid_datetime s \<and> fst (generate_dates s e) = [] \<longrightarrow>
      generate_transactions s e (DataFrame []) w = Inr ([], w) \<and>
      generate_transactions s e (Frame []) w = Inr ([], w))"
proof (intro conjI impI)
  show "generate_products 0 w0 = Inr ([], w0)"
    by (simp add: generate_products_def)
  show "DataFrame [] = Frame_without_columns"
    by (simp add: DataFrame_def)
next
  assume dates: "fst (generate_dates s e) \<noteq> []"
  show "generate_transactions s e (DataFrame []) w = Inl KeyError"
    by (rule generate_transactions_raises [OF _ dates])
       (simp add: generate_transactions_body_no_columns)
  show "generate_transactions s e (Frame []) w = Inl IndexError"
    by (rule generate_transactions_raises [OF _ dates])
       (simp add: generate_transactions_body_no_rows)
next
  assume "valid_datetime s \<and> fst (generate_dates s e) = []"
  then have a: "valid_datetime s" "fst (generate_dates s e) = []" by simp_all
  show "generate_transactions s e (DataFrame []) w = Inr ([], w)"
    by (rule generate_transactions_no_dates [OF a])
  show "generate_transactions s e (Frame []) w = Inr ([], w)"
    by (rule generate_transactions_no_dates [OF a])
qed

lemma generate_dates_sunday:
  "generate_dates (mk_datetime 2024 9 1) (mk_datetime 2024 9 1) = ([], None)"
  by (simp add: generate_dates_def generate_dates_loop.simps calendar_defs Let_def)

theorem empty_catalog_raises_witness:
  "fst (generate_dates (mk_datetime 2024 9 2) (mk_datetime 2024 9 2)) \<noteq> [] \<and>
   generate_transactions (mk_datetime 2024 9 2) (mk_datetime 2024 9 2)
     (DataFrame (fst (projr (generate_products 0 sample_world)))) sample_world = Inl KeyError \<and>
   generate_transactions (mk_datetime 2024 9 2) (mk_datetime 2024 9 2) (Frame []) sample_world
     = Inl IndexError \<and>
   valid_datetime (mk_datetime 2024 9 1) \<and>
   fst (generate_dates (mk_datetime 2024 9 1) (mk_datetime 2024 9 1)) = [] \<and>
   generate_transactions (mk_datetime 2024 9 1) (mk_datetime 2024 9 1)
     (DataFrame (fst (projr (generate_products 0 sample_world)))) sample_world
     = Inr ([], sample_world) \<and>
   generate_transactions (mk_datetime 2024 9 1) (mk_datetime 2024 9 1) (Frame []) sample_world
     = Inr ([], sample_world)"
proof -
  have monday: "fst (generate_dates (mk_datetime 2024 9 2) (mk_datetime 2024 9 2)) \<noteq> []"
    by (simp add: generate_dates_monday)
  have sunday: "valid_datetime (mk_datetime 2024 9 1)"
    "fst (generate_dates (mk_datetime 2024 9 1) (mk_datetime 2024 9 1)) = []"
    by (simp add: valid_datetime_def calendar_defs) (simp add: generate_dates_sunday)
  note mon = empty_catalog_raises
    [of sample_world "mk_datetime 2024 9 2" "mk_datetime 2024 9 2" sample_world]
  note sun = empty_catalog_raises
    [of sample_world "mk_datetime 2024 9 1" "mk_datetime 2024 9 1" sample_world]
  from mon have rows: "fst (projr (generate_products 0 sample_world)) = []" by simp
  from mon monday have
    "generate_transactions (mk_datetime 2024 9 2) (mk_datetime 2024 9 2) (DataFrame []) sample_world
       = Inl KeyError"
    "generate_transactions (mk_datetime 2024 9 2) (mk_datetime 2024 9 2) (Frame []) sample_world
       = Inl IndexError" by blast+
  moreover
  from sun sunday have
    "generate_transactions (mk_datetime 2024 9 1) (mk_datetime 2024 9 1) (DataFrame []) sample_world
       = Inr ([], sample_world)"
    "generate_transactions (mk_datetime 2024 9 1) (mk_datetime 2024 9 1) (Frame []) sample_world
       = Inr ([], sample_world)" by blast+
  ultimately show ?thesis using monday sunday rows by simp
qed

section \<open>Properties of the expense generator\<close>

lemma generate_expenses_inner_result:
  "generate_expenses_inner cats date sno w = (es, sno', w') \<Longrightarrow>
     map e_category es = map fst (filter (\<lambda>(c, dets). should_record dets date) cats) \<and>
     (\<forall>x\<in>set es. e_date x = strftime_date date) \<and>
     sno' = sno + int (length es) \<and>
     (\<forall>j<length es. e_sno (es ! j) = sno + int j)"
proof (induction cats arbitrary: sno w es)
  case Nil
  then show ?case by simp
next
  case (Cons cd rest)
  obtain category dets where cd: "cd = (category, dets)" by (cases cd)
  show ?case
  proof (cases "should_record dets date")
    case False
    with Cons.prems cd have "generate_expenses_inner rest date sno w = (es, sno', w')" by simp
    from Cons.IH [OF this] False cd show ?thesis by simp
  next
    case True
    with Cons.prems cd obtain x w1 es1 where
      r: "generate_expenses_inner rest date (sno + 1) w1 = (es1, sno', w')" and
      es: "es = x # es1" and
      x: "e_sno x = sno" "e_date x = strftime_date date" "e_category x = category"
      by (auto simp: Let_def split: prod.splits)
    from Cons.IH [OF r] have ih:
      "map e_category es1 = map fst (filter (\<lambda>(c, dets). should_record dets date) rest)"
      "\<forall>x\<in>set es1. e_date x = strftime_date date"
      "sno' = sno + 1 + int (length es1)"
      "\<forall>j<length es1. e_sno (es1 ! j) = sno + 1 + int j" by blast+
    have "e_sno (es ! j) = sno + int j" if "j < length es" for j
    proof (cases j)
      case 0
      with x es show ?thesis by simp
    next
      case (Suc i)
      with that ih(4) es show ?thesis by simp
    qed
    with ih x es True cd show ?thesis by simp
  qed
qed

lemma filter_category_distinct:
  assumes "distinct (map fst cats)" "(c, dets) \<in> set cats"
  shows "filter (\<lambda>n. n = c) (map fst (filter (\<lambda>(c, dets). P dets) cats)) = (if P dets then [c] else [])"
  using assms
proof (induction cats)
  case Nil
  then show ?case by simp
next
  case (Cons a cats)
  obtain c' d' where a: "a = (c', d')" by (cases a)
  show ?case
  proof (cases "c' = c")
    case True
    with Cons.prems a have d: "d' = dets" and notin: "c \<notin> fst ` set cats"
      by (auto simp: rev_image_eqI)
    from notin have "filter (\<lambda>n. n = c) (map fst (filter (\<lambda>(c, dets). P dets) cats)) = []"
      by (force simp: filter_empty_conv)
    with True d a show ?thesis by simp
  next
    case False
    with Cons a show ?thesis by auto
  qed
qed

lemma generate_expenses_inner_category:
  assumes "generate_expenses_inner cats date sno w = (es, sno', w')"
    "distinct (map fst cats)" "(c, dets) \<in> set cats"
  shows "map e_date (filter (\<lambda>x. e_category x = c) es) =
           (if should_record dets date then [strftime_date date] else [])"
proof -
  from generate_expenses_inner_result [OF assms(1)] have
    cats: "map e_category es = map fst (filter (\<lambda>(c, dets). should_record dets date) cats)" and
    dates: "\<forall>x\<in>set es. e_date x = strftime_date date" by blast+
  from dates have "map e_date (filter (\<lambda>x. e_category x = c) es) =
      map (\<lambda>x. strftime_date date) (filter (\<lambda>x. e_category x = c) es)"
    by (intro map_cong) auto
  also have "\<dots> = map (\<lambda>n. strftime_date date) (filter (\<lambda>n. n = c) (map e_category es))"
    by (simp add: filter_map comp_def)
  also have "\<dots> = (if should_record dets date then [strftime_date date] else [])"
    unfolding cats filter_category_distinct [OF assms(2,3), of "\<lambda>dets. should_record dets date"]
    by simp
  finally show ?thesis .
qed

lemma generate_expenses_outer_result:
  "generate_expenses_outer dates sno w = (es, sno', w') \<Longrightarrow>
     (\<forall>x\<in>set es. \<exists>date\<in>set dates. e_date x = strftime_date date) \<and>
     sno' = sno + int (length es) \<and>
     (\<forall>j<length es. e_sno (es ! j) = sno + int j)"
proof (induction dates arbitrary: sno w es)
  case Nil
  then show ?case by simp
next
  case (Cons date dates)
  from Cons.prems obtain es1 sno1 w1 es2 where
    d: "generate_expenses_inner expense_categories date sno w = (es1, sno1, w1)" and
    r: "generate_expenses_outer dates sno1 w1 = (es2, sno', w')" and
    es: "es = es1 @ es2"
    by (auto split: prod.splits)
  from generate_expenses_inner_result [OF d] have d1:
    "\<forall>x\<in>set es1. e_date x = strftime_date date"
    "sno1 = sno + int (length es1)" "\<forall>j<length es1. e_sno (es1 ! j) = sno + int j" by blast+
  from Cons.IH [OF r] have d2:
    "\<forall>x\<in>set es2. \<exists>date\<in>set dates. e_date x = strftime_date date"
    "sno' = sno1 + int (length es2)" "\<forall>j<length es2. e_sno (es2 ! j) = sno1 + int j" by blast+
  have "e_sno (es ! j) = sno + int j" if "j < length es" for j
  proof (cases "j < length es1")
    case True
    with d1(3) es show ?thesis by (simp add: nth_append)
  next
    case False
    with that es have "j - length es1 < length es2" by simp
    with d2(3) d1(2) False es show ?thesis by (simp add: nth_append)
  qed
  moreover from d1(1) d2(1) es
  have "\<forall>x\<in>set es. \<exists>date\<in>set (date # dates). e_date x = strftime_date date" by auto
  ultimately show ?case using d1(2) d2(2) es by simp
qed

lemma generate_expenses_outer_category:
  assumes "(c, dets) \<in> set expense_categories"
  shows "generate_expenses_outer dates sno w = (es, sno', w') \<Longrightarrow>
     map e_date (filter (\<lambda>x. e_category x = c) es) =
       map strftime_date (filter (should_record dets) dates)"
proof (induction dates arbitrary: sno w es)
  case Nil
  then show ?case by simp
next
  case (Cons date dates)
  from Cons.prems obtain es1 sno1 w1 es2 where
    d: "generate_expenses_inner expense_categories date sno w = (es1, sno1, w1)" and
    r: "generate_expenses_outer dates sno1 w1 = (es2, sno', w')" and
    es: "es = es1 @ es2"
    by (auto split: prod.splits)
  have "distinct (map fst expense_categories)"
    by (simp add: expense_categories_def)
  from generate_expenses_inner_category [OF d this assms] Cons.IH [OF r] es
  show ?case by simp
qed

lemma generate_dates_early_september:
  "generate_dates (mk_datetime 2024 9 1) (mk_datetime 2024 9 3) =
     ([\<lparr>ordinal = 739131, tod = 0\<rparr>, \<lparr>ordinal = 739132, tod = 0\<rparr>], None)"
  by (simp add: generate_dates_def generate_dates_loop.simps calendar_defs Let_def)

lemma generate_dates_holi_week:
  "generate_dates (mk_datetime 2024 3 25) (mk_datetime 2024 3 27) =
     ([\<lparr>ordinal = 738971, tod = 0\<rparr>, \<lparr>ordinal = 738972, tod = 0\<rparr>], None)"
  by (simp add: generate_dates_def generate_dates_loop.simps calendar_defs Let_def)

lemma generate_dates_new_year:
  "generate_dates (mk_datetime 2024 1 1) (mk_datetime 2024 1 2) =
     ([\<lparr>ordinal = 738886, tod = 0\<rparr>, \<lparr>ordinal = 738887, tod = 0\<rparr>], None)"
  by (simp add: generate_dates_def generate_dates_loop.simps calendar_defs Let_def)

lemmas expenses_eval =
  expense_categories_def should_record_def sample_world_def library_defs
  sample_days_formatted sample_days_of_month sample_weekdays Let_def

lemma generate_expenses_early_september:
  "map_sum id (\<lambda>(es, w). map (\<lambda>x. (e_sno x, e_date x, e_category x)) es)
     (generate_expenses (mk_datetime 2024 9 1) (mk_datetime 2024 9 3) sample_world) =
   Inr [(1, ''02-09-2024'', ''Transportation''), (2, ''02-09-2024'', ''Cleaning''),
        (3, ''02-09-2024'', ''Maintenance''), (4, ''02-09-2024'', ''Packaging Material''),
        (5, ''02-09-2024'', ''Miscellaneous''), (6, ''03-09-2024'', ''Transportation''),
        (7, ''03-09-2024'', ''Cleaning''), (8, ''03-09-2024'', ''Miscellaneous'')]"
  unfolding generate_expenses_def generate_dates_early_september
  by (simp add: expenses_eval)

lemma generate_expenses_holi_week:
  "map_sum id (\<lambda>(es, w). map (\<lambda>x. (e_sno x, e_date x, e_category x)) es)
     (generate_expenses (mk_datetime 2024 3 25) (mk_datetime 2024 3 27) sample_world) =
   Inr [(1, ''26-03-2024'', ''Transportation''), (2, ''26-03-2024'', ''Cleaning''),
        (3, ''26-03-2024'', ''Miscellaneous''), (4, ''27-03-2024'', ''Transportation''),
        (5, ''27-03-2024'', ''Cleaning''), (6, ''27-03-2024'', ''Miscellaneous'')]"
  unfolding generate_expenses_def generate_dates_holi_week
  by (simp add: expenses_eval)

lemma generate_expenses_new_year:
  "map_sum id (\<lambda>(es, w). map (\<lambda>x. (e_sno x, e_date x, e_category x)) es)
     (generate_expenses (mk_datetime 2024 1 1) (mk_datetime 2024 1 2) sample_world) =
   Inr [(1, ''01-01-2024'', ''Rent''), (2, ''01-01-2024'', ''Electricity''),
        (3, ''01-01-2024'', ''Water''), (4, ''01-01-2024'', ''Staff Salary''),
        (5, ''01-01-2024'', ''Transportation''), (6, ''01-01-2024'', ''Cleaning''),
        (7, ''01-01-2024'', ''Maintenance''), (8, ''01-01-2024'', ''Internet & Phone''),
        (9, ''01-01-2024'', ''Packaging Material''), (10, ''01-01-2024'', ''Miscellaneous''),
        (11, ''02-01-2024'', ''Transportation''), (12, ''02-01-2024'', ''Cleaning''),
        (13, ''02-01-2024'', ''Miscellaneous'')]"
  unfolding generate_expenses_def generate_dates_new_year
  by (simp add: expenses_eval)

lemma expense_columns:
  assumes "map_sum id (\<lambda>(es, w). map (\<lambda>x. (e_sno x, e_date x, e_category x)) es) r = Inr l"
  shows "\<not> isl r \<and> map e_sno (fst (projr r)) = map fst l \<and>
         map e_date (fst (projr r)) = map (fst \<circ> snd) l \<and>
         map e_category (fst (projr r)) = map (snd \<circ> snd) l"
proof (cases r)
  case (Inl err)
  with assms show ?thesis by simp
next
  case (Inr p)
  obtain es w where p: "p = (es, w)" by (cases p)
  with Inr assms have "l = map (\<lambda>x. (e_sno x, e_date x, e_category x)) es" by simp
  with Inr p show ?thesis by (simp add: comp_def)
qed

lemma generate_expenses_category:
  assumes run: "generate_expenses s e w = Inr (es, w')"
    and cat: "(c, dets) \<in> set expense_categories"
  shows "map e_date (filter (\<lambda>x. e_category x = c) es) =
           map strftime_date (filter (should_record dets) (fst (generate_dates s e)))"
proof -
  obtain dates ended where g: "generate_dates s e = (dates, ended)"
    by (cases "generate_dates s e")
  with run obtain sno' where "generate_expenses_outer dates 1 w = (es, sno', w')"
    by (auto simp: generate_expenses_def split: prod.splits option.splits)
  from generate_expenses_outer_category [OF cat this] g show ?thesis by simp
qed

lemma generate_expenses_result:
  assumes run: "generate_expenses s e w = Inr (es, w')"
  shows "(\<forall>x\<in>set es. \<exists>date\<in>set (fst (generate_dates s e)). e_date x = strftime_date date) \<and>
         (\<forall>j<length es. e_sno (es ! j) = 1 + int j)"
proof -
  obtain dates ended where g: "generate_dates s e = (dates, ended)"
    by (cases "generate_dates s e")
  with run obtain sno' where "generate_expenses_outer dates 1 w = (es, sno', w')"
    by (auto simp: generate_expenses_def split: prod.splits option.splits)
  from generate_expenses_outer_result [OF this] g show ?thesis by simp
qed

text \<open>
  C1, as the code has it. An expense category is recorded on exactly the business days
  that pass its frequency test, once each and in calendar order: a monthly category on
  the business days that are the first of their month, a weekly category on the business
  days that are Mondays, a daily category on every business day. A month whose first day
  is a Sunday or a holiday, or lies before the start date, gets no monthly record, and a
  week whose Monday is a holiday or lies outside the range gets no weekly record: from
  1 to 3 September 2024 (the 1st is a Sunday) no \<^verbatim>\<open>Rent\<close> is recorded, and from 25 to 27
  March 2024 (the 25th, a Monday, is a holiday) no \<^verbatim>\<open>Maintenance\<close>.
\<close>

theorem expenses_follow_frequency_gate:
  assumes "generate_expenses s e w = Inr (es, w')" "(c, dets) \<in> set expense_categories"
  shows "(d_frequency dets = ''monthly'' \<longrightarrow>
            map e_date (filter (\<lambda>x. e_category x = c) es) =
              map strftime_date (filter (\<lambda>d. day_of d = 1) (fst (generate_dates s e)))) \<and>
         (d_frequency dets = ''weekly'' \<longrightarrow>
            map e_date (filter (\<lambda>x. e_category x = c) es) =
              map strftime_date (filter (\<lambda>d. weekday d = 0) (fst (generate_dates s e)))) \<and>
         (d_frequency dets = ''daily'' \<longrightarrow>
            map e_date (filter (\<lambda>x. e_category x = c) es) =
              map strftime_date (fst (generate_dates s e)))"
proof -
  have "should_record dets = (\<lambda>d. day_of d = 1)" if "d_frequency dets = ''monthly''"
    using that by (simp add: should_record_def fun_eq_iff)
  moreover have "should_record dets = (\<lambda>d. weekday d = 0)" if "d_frequency dets = ''weekly''"
    using that by (simp add: should_record_def fun_eq_iff)
  moreover have "should_record dets = (\<lambda>d. True)" if "d_frequency dets = ''daily''"
    using that by (simp add: should_record_def fun_eq_iff)
  ultimately show ?thesis
    using generate_expenses_category [OF assms] by simp
qed

theorem expense_frequency_counterexample:
  "fst (generate_dates (mk_datetime 2024 9 1) (mk_datetime 2024 9 3)) =
     [\<lparr>ordinal = 739131, tod = 0\<rparr>, \<lparr>ordinal = 739132, tod = 0\<rparr>] \<and>
   month_of \<lparr>ordinal = 739131, tod = 0\<rparr> = 9 \<and> day_of \<lparr>ordinal = 739131, tod = 0\<rparr> = 2 \<and>
   \<not> isl (generate_expenses (mk_datetime 2024 9 1) (mk_datetime 2024 9 3) sample_world) \<and>
   map e_category
     (fst (projr (generate_expenses (mk_datetime 2024 9 1) (mk_datetime 2024 9 3) sample_world))) =
     [''Transportation'', ''Cleaning'', ''Maintenance'', ''Packaging Material'',
      ''Miscellaneous'', ''Transportation'', ''Cleaning'', ''Miscellaneous''] \<and>
   ''Rent'' \<notin> set (map e_category
     (fst (projr (generate_expenses (mk_datetime 2024 9 1) (mk_datetime 2024 9 3) sample_world)))) \<and>
   fst (generate_dates (mk_datetime 2024 3 25) (mk_datetime 2024 3 27)) =
     [\<lparr>ordinal = 738971, tod = 0\<rparr>, \<lparr>ordinal = 738972, tod = 0\<rparr>] \<and>
   weekday \<lparr>ordinal = 738971, tod = 0\<rparr> = 1 \<and>
   \<not> isl (generate_expenses (mk_datetime 2024 3 25) (mk_datetime 2024 3 27) sample_world) \<and>
   map e_category
     (fst (projr (generate_expenses (mk_datetime 2024 3 25) (mk_datetime 2024 3 27) sample_world))) =
     [''Transportation'', ''Cleaning'', ''Miscellaneous'',
      ''Transportation'', ''Cleaning'', ''Miscellaneous''] \<and>
   ''Maintenance'' \<notin> set (map e_category
     (fst (projr (generate_expenses (mk_datetime 2024 3 25) (mk_datetime 2024 3 27) sample_world))))"
proof -
  have "month_of \<lparr>ordinal = 739131, tod = 0\<rparr> = 9" "day_of \<lparr>ordinal = 739131, tod = 0\<rparr> = 2"
    "weekday \<lparr>ordinal = 738971, tod = 0\<rparr> = 1"
    by (simp_all add: sample_days_of_month sample_weekdays) code_simp
  with expense_columns [OF generate_expenses_early_september]
    expense_columns [OF generate_expenses_holi_week]
  show ?thesis
    by (simp add: generate_dates_early_september generate_dates_holi_week)
qed

theorem expenses_follow_frequency_gate_witness:
  "\<not> isl (generate_expenses (mk_datetime 2024 1 1) (mk_datetime 2024 1 2) sample_world) \<and>
   map e_category
     (fst (projr (generate_expenses (mk_datetime 2024 1 1) (mk_datetime 2024 1 2) sample_world))) =
     [''Rent'', ''Electricity'', ''Water'', ''Staff Salary'', ''Transportation'', ''Cleaning'',
      ''Maintenance'', ''Internet & Phone'', ''Packaging Material'', ''Miscellaneous'',
      ''Transportation'', ''Cleaning'', ''Miscellaneous''] \<and>
   (''Rent'', \<lparr>d_frequency = ''monthly'', d_amount = (15000, 20000)\<rparr>) \<in> set expense_categories \<and>
   map e_date (filter (\<lambda>x. e_category x = ''Rent'')
     (fst (projr (generate_expenses (mk_datetime 2024 1 1) (mk_datetime 2024 1 2) sample_world)))) =
     [''01-01-2024''] \<and>
   (''Maintenance'', \<lparr>d_frequency = ''weekly'', d_amount = (200, 500)\<rparr>)
     \<in> set expense_categories \<and>
   map e_date (filter (\<lambda>x. e_category x = ''Maintenance'')
     (fst (projr (generate_expenses (mk_datetime 2024 1 1) (mk_datetime 2024 1 2) sample_world)))) =
     [''01-01-2024''] \<and>
   (''Transportation'', \<lparr>d_frequency = ''daily'', d_amount = (100, 300)\<rparr>)
     \<in> set expense_categories \<and>
   map e_date (filter (\<lambda>x. e_category x = ''Transportation'')
     (fst (projr (generate_expenses (mk_datetime 2024 1 1) (mk_datetime 2024 1 2) sample_world)))) =
     [''01-01-2024'', ''02-01-2024'']"
proof -
  note cols = expense_columns [OF generate_expenses_new_year]
  have returns: "\<not> isl (generate_expenses (mk_datetime 2024 1 1) (mk_datetime 2024 1 2) sample_world)"
    using cols by blast
  obtain es w' where
    run: "generate_expenses (mk_datetime 2024 1 1) (mk_datetime 2024 1 2) sample_world = Inr (es, w')"
    using returns by (cases "generate_expenses (mk_datetime 2024 1 1) (mk_datetime 2024 1 2) sample_world") auto
  have cats:
    "(''Rent'', \<lparr>d_frequency = ''monthly'', d_amount = (15000, 20000)\<rparr>) \<in> set expense_categories"
    "(''Maintenance'', \<lparr>d_frequency = ''weekly'', d_amount = (200, 500)\<rparr>) \<in> set expense_categories"
    "(''Transportation'', \<lparr>d_frequency = ''daily'', d_amount = (100, 300)\<rparr>) \<in> set expense_categories"
    by (simp_all add: expense_categories_def)
  have days: "map strftime_date (filter (\<lambda>d. day_of d = 1)
        (fst (generate_dates (mk_datetime 2024 1 1) (mk_datetime 2024 1 2)))) = [''01-01-2024'']"
    "map strftime_date (filter (\<lambda>d. weekday d = 0)
        (fst (generate_dates (mk_datetime 2024 1 1) (mk_datetime 2024 1 2)))) = [''01-01-2024'']"
    "map strftime_date (fst (generate_dates (mk_datetime 2024 1 1) (mk_datetime 2024 1 2))) =
       [''01-01-2024'', ''02-01-2024'']"
    by (simp_all add: generate_dates_new_year sample_days_formatted sample_days_of_month sample_weekdays)
  have monthly: "map e_date (filter (\<lambda>x. e_category x = ''Rent'') es) = [''01-01-2024'']"
    using expenses_follow_frequency_gate [OF run cats(1)] days(1) by simp
  have weekly: "map e_date (filter (\<lambda>x. e_category x = ''Maintenance'') es) = [''01-01-2024'']"
    using expenses_follow_frequency_gate [OF run cats(2)] days(2) by simp
  have daily: "map e_date (filter (\<lambda>x. e_category x = ''Transportation'') es) =
      [''01-01-2024'', ''02-01-2024'']"
    using expenses_follow_frequency_gate [OF run cats(3)] days(3) by simp
  have names: "map e_category
     (fst (projr (generate_expenses (mk_datetime 2024 1 1) (mk_datetime 2024 1 2) sample_world))) =
     [''Rent'', ''Electricity'', ''Water'', ''Staff Salary'', ''Transportation'', ''Cleaning'',
      ''Maintenance'', ''Internet & Phone'', ''Packaging Material'', ''Miscellaneous'',
      ''Transportation'', ''Cleaning'', ''Miscellaneous'']"
    using cols by simp
  from cols have "\<not> isl (generate_expenses (mk_datetime 2024 1 1) (mk_datetime 2024 1 2) sample_world)"
    by blast
  with names cats monthly weekly daily show ?thesis
    unfolding run sum.sel fst_conv by blast
qed

section \<open>Properties of the record sets\<close>

lemma transaction_dates:
  assumes "generate_transactions s e products w = Inr (ts, w')"
  shows "\<forall>t\<in>set ts. t_date t \<in> strftime_date ` set (fst (generate_dates s e))"
proof
  fix t assume "t \<in> set ts"
  moreover have "\<forall>t\<in>set ts. \<exists>date\<in>set (fst (generate_dates s e)). t_date t = strftime_date date"
  proof (rule generate_transactions_all [of products "\<lambda>date t. t_date t = strftime_date date",
      OF _ assms])
    fix date sno w t w'
    assume "generate_transactions_body date products sno w = Inr (t, w')"
    from generate_transactions_body_stamp [OF this] show "t_date t = strftime_date date"
      by blast
  qed
  ultimately show "t_date t \<in> strftime_date ` set (fst (generate_dates s e))" by blast
qed

text \<open>
  C6. The date written on every transaction and on every expense is the formatted
  (\<^verbatim>\<open>%d-%m-%Y\<close>) date of a business day that \<^verbatim>\<open>generate_dates\<close> yields for the same
  start and end dates.
\<close>

theorem record_dates_are_business_days:
  "(generate_transactions s e products w = Inr (ts, w1) \<longrightarrow>
      (\<forall>t\<in>set ts. t_date t \<in> strftime_date ` set (fst (generate_dates s e)))) \<and>
   (generate_expenses s e w = Inr (es, w2) \<longrightarrow>
      (\<forall>x\<in>set es. e_date x \<in> strftime_date ` set (fst (generate_dates s e))))"
proof (intro conjI impI)
  assume "generate_transactions s e products w = Inr (ts, w1)"
  then show "\<forall>t\<in>set ts. t_date t \<in> strftime_date ` set (fst (generate_dates s e))"
    by (rule transaction_dates)
next
  assume "generate_expenses s e w = Inr (es, w2)"
  from generate_expenses_result [OF this]
  show "\<forall>x\<in>set es. e_date x \<in> strftime_date ` set (fst (generate_dates s e))"
    by blast
qed

theorem record_dates_are_business_days_witness:
  "\<not> isl (generate_transactions (mk_datetime 2024 9 2) (mk_datetime 2024 9 2)
            (DataFrame rounding_catalog) rounding_world) \<and>
   t_date (hd (fst (projr (generate_transactions (mk_datetime 2024 9 2) (mk_datetime 2024 9 2)
            (DataFrame rounding_catalog) rounding_world)))) = ''02-09-2024'' \<and>
   map strftime_date (fst (generate_dates (mk_datetime 2024 9 2) (mk_datetime 2024 9 2))) =
     [''02-09-2024''] \<and>
   list_all (\<lambda>t. t_date t \<in>
       strftime_date ` set (fst (generate_dates (mk_datetime 2024 9 2) (mk_datetime 2024 9 2))))
     (fst (projr (generate_transactions (mk_datetime 2024 9 2) (mk_datetime 2024 9 2)
            (DataFrame rounding_catalog) rounding_world))) \<and>
   \<not> isl (generate_expenses (mk_datetime 2024 9 1) (mk_datetime 2024 9 3) sample_world) \<and>
   map e_date
     (fst (projr (generate_expenses (mk_datetime 2024 9 1) (mk_datetime 2024 9 3) sample_world))) =
     [''02-09-2024'', ''02-09-2024'', ''02-09-2024'', ''02-09-2024'', ''02-09-2024'',
      ''03-09-2024'', ''03-09-2024'', ''03-09-2024''] \<and>
   map strftime_date (fst (generate_dates (mk_datetime 2024 9 1) (mk_datetime 2024 9 3))) =
     [''02-09-2024'', ''03-09-2024''] \<and>
   list_all (\<lambda>x. e_date x \<in>
       strftime_date ` set (fst (generate_dates (mk_datetime 2024 9 1) (mk_datetime 2024 9 3))))
     (fst (projr (generate_expenses (mk_datetime 2024 9 1) (mk_datetime 2024 9 3) sample_world)))"
proof -
  from rounding_run obtain ts w1 where
    t: "generate_transactions (mk_datetime 2024 9 2) (mk_datetime 2024 9 2)
            (DataFrame rounding_catalog) rounding_world = Inr (ts, w1)"
    by (cases "generate_transactions (mk_datetime 2024 9 2) (mk_datetime 2024 9 2)
            (DataFrame rounding_catalog) rounding_world") auto
  note cols = expense_columns [OF generate_expenses_early_september]
  have returns: "\<not> isl (generate_expenses (mk_datetime 2024 9 1) (mk_datetime 2024 9 3) sample_world)"
    using cols by blast
  obtain es w2 where
    x: "generate_expenses (mk_datetime 2024 9 1) (mk_datetime 2024 9 3) sample_world = Inr (es, w2)"
    using returns by (cases "generate_expenses (mk_datetime 2024 9 1) (mk_datetime 2024 9 3) sample_world") auto
  have days:
    "map strftime_date (fst (generate_dates (mk_datetime 2024 9 2) (mk_datetime 2024 9 2))) =
       [''02-09-2024'']"
    "map strftime_date (fst (generate_dates (mk_datetime 2024 9 1) (mk_datetime 2024 9 3))) =
       [''02-09-2024'', ''03-09-2024'']"
    by (simp_all add: generate_dates_monday generate_dates_early_september sample_days_formatted)
  from record_dates_are_business_days
    [of "mk_datetime 2024 9 2" "mk_datetime 2024 9 2" "DataFrame rounding_catalog" rounding_world
      ts w1] t
  have "list_all (\<lambda>t. t_date t \<in>
       strftime_date ` set (fst (generate_dates (mk_datetime 2024 9 2) (mk_datetime 2024 9 2)))) ts"
    unfolding list_all_iff by blast
  moreover from record_dates_are_business_days
    [of "mk_datetime 2024 9 1" "mk_datetime 2024 9 3" _ sample_world _ _ es w2] x
  have "list_all (\<lambda>x. e_date x \<in>
       strftime_date ` set (fst (generate_dates (mk_datetime 2024 9 1) (mk_datetime 2024 9 3)))) es"
    unfolding list_all_iff by blast
  moreover have "t_date (hd ts) = ''02-09-2024''"
    using rounding_run unfolding t by simp
  moreover have "map e_date es =
     [''02-09-2024'', ''02-09-2024'', ''02-09-2024'', ''02-09-2024'', ''02-09-2024'',
      ''03-09-2024'', ''03-09-2024'', ''03-09-2024'']"
    using cols unfolding x by simp
  ultimately show ?thesis
    using days unfolding t x sum.sel fst_conv by simp
qed

text \<open>
  C7. In each of the three record sets the sequence numbers \<^verbatim>\<open>S.No\<close> are 1, 2, 3, ... in
  the order of emission, hence strictly increasing.
\<close>

theorem sequence_numbers_count_up:
  "(generate_products n w = Inr (ps, w1) \<longrightarrow>
      map p_sno ps = [1..int (length ps)] \<and> sorted_wrt (<) (map p_sno ps)) \<and>
   (generate_transactions s e products w = Inr (ts, w2) \<longrightarrow>
      map t_sno ts = [1..int (length ts)] \<and> sorted_wrt (<) (map t_sno ts)) \<and>
   (generate_expenses s e w = Inr (es, w3) \<longrightarrow>
      map e_sno es = [1..int (length es)] \<and> sorted_wrt (<) (map e_sno es))"
proof (intro conjI impI)
  assume "generate_products n w = Inr (ps, w1)"
  then have "generate_products_loop (nat n) 0 w = Inr (ps, w1)"
    by (simp add: generate_products_def)
  from generate_products_loop_result [OF this]
  have "length ps = nat n" "map p_sno ps = [0 + 1..0 + int (nat n)]" by blast+
  then show p: "map p_sno ps = [1..int (length ps)]" by simp
  show "sorted_wrt (<) (map p_sno ps)" unfolding p by simp
next
  assume "generate_transactions s e products w = Inr (ts, w2)"
  from generate_transactions_sno [OF this]
  have "\<forall>j<length ts. t_sno (ts ! j) = 1 + int j" by blast
  then show t: "map t_sno ts = [1..int (length ts)]" by (rule sno_upto)
  show "sorted_wrt (<) (map t_sno ts)" unfolding t by simp
next
  assume "generate_expenses s e w = Inr (es, w3)"
  from generate_expenses_result [OF this]
  have "\<forall>j<length es. e_sno (es ! j) = 1 + int j" by blast
  then show x: "map e_sno es = [1..int (length es)]" by (rule sno_upto)
  show "sorted_wrt (<) (map e_sno es)" unfolding x by simp
qed

theorem sequence_numbers_count_up_witness:
  "generate_products 2 sample_world = Inr (sample_catalog, pipeline_world) \<and>
   map p_sno sample_catalog = [1, 2] \<and>
   map p_sno sample_catalog = [1..int (length sample_catalog)] \<and>
   \<not> isl (generate_transactions (mk_datetime 2024 9 2) (mk_datetime 2024 9 2)
            (DataFrame sample_catalog) pipeline_world) \<and>
   80 \<le> length (fst (projr (generate_transactions (mk_datetime 2024 9 2)
            (mk_datetime 2024 9 2) (DataFrame sample_catalog) pipeline_world))) \<and>
   t_sno (hd (fst (projr (generate_transactions (mk_datetime 2024 9 2)
            (mk_datetime 2024 9 2) (DataFrame sample_catalog) pipeline_world)))) = 1 \<and>
   map t_sno (fst (projr (generate_transactions (mk_datetime 2024 9 2)
            (mk_datetime 2024 9 2) (DataFrame sample_catalog) pipeline_world))) =
     [1..int (length (fst (projr (generate_transactions (mk_datetime 2024 9 2)
            (mk_datetime 2024 9 2) (DataFrame sample_catalog) pipeline_world))))] \<and>
   \<not> isl (generate_expenses (mk_datetime 2024 9 1) (mk_datetime 2024 9 3) sample_world) \<and>
   map e_sno (fst (projr (generate_expenses (mk_datetime 2024 9 1) (mk_datetime 2024 9 3)
            sample_world))) = [1, 2, 3, 4, 5, 6, 7, 8] \<and>
   map e_sno (fst (projr (generate_expenses (mk_datetime 2024 9 1) (mk_datetime 2024 9 3)
            sample_world))) =
     [1..int (length (fst (projr (generate_expenses (mk_datetime 2024 9 1)
            (mk_datetime 2024 9 3) sample_world))))]"
proof -
  note cols = expense_columns [OF generate_expenses_early_september]
  have returns: "\<not> isl (generate_expenses (mk_datetime 2024 9 1) (mk_datetime 2024 9 3) sample_world)"
    using cols by blast
  obtain es w3 where
    x: "generate_expenses (mk_datetime 2024 9 1) (mk_datetime 2024 9 3) sample_world = Inr (es, w3)"
    using returns
    by (cases "generate_expenses (mk_datetime 2024 9 1) (mk_datetime 2024 9 3) sample_world") auto
  from pipeline_run obtain ts w2 where
    t: "generate_transactions (mk_datetime 2024 9 2) (mk_datetime 2024 9 2)
            (DataFrame sample_catalog) pipeline_world = Inr (ts, w2)"
    by (cases "generate_transactions (mk_datetime 2024 9 2) (mk_datetime 2024 9 2)
            (DataFrame sample_catalog) pipeline_world") auto
  note p = generate_products_sample_catalog
  from sequence_numbers_count_up [of 2 sample_world sample_catalog pipeline_world] p
  have p_sno: "map p_sno sample_catalog = [1..int (length sample_catalog)]" by blast
  from sequence_numbers_count_up
    [of _ pipeline_world _ _ "mk_datetime 2024 9 2" "mk_datetime 2024 9 2"
      "DataFrame sample_catalog" ts w2] t
  have t_sno: "map t_sno ts = [1..int (length ts)]" by blast
  from sequence_numbers_count_up
    [of _ sample_world _ _ "mk_datetime 2024 9 1" "mk_datetime 2024 9 3" _ _ _ es w3] x
  have e_sno: "map e_sno es = [1..int (length es)]" by blast
  have e_list: "map e_sno es = [1, 2, 3, 4, 5, 6, 7, 8]"
    using cols unfolding x by simp
  have t_len: "80 \<le> length ts"
    using generate_transactions_sno [OF t] by (simp add: generate_dates_monday)
  have t_hd: "t_sno (hd ts) = 1"
    using pipeline_run unfolding t by simp
  have p_list: "map p_sno sample_catalog = [1, 2]"
    by (simp add: sample_catalog_def)
  from p p_list p_sno t_len t_hd t_sno e_list e_sno show ?thesis
    unfolding t x sum.sel fst_conv by simp
qed

end
